theory Spec2Isabelle
  imports Main "HOL-Library.Word"
begin

section \<open>Python values\<close>

text \<open>
  The module \<^verbatim>\<open>pyfrost/network_http/sa.py\<close> works on untyped Python values: the request
  bodies it builds, the JSON bodies that \<^verbatim>\<open>response.json()\<close> decodes, and the dictionary the
  cryptographic library returns. A dictionary is an association list with distinct keys, in
  insertion order. JSON numbers with a fraction (Python floats) are outside the model.
\<close>

datatype pyval =
    PNone
  | PBool bool
  | PInt int
  | PStr string
  | PBytes "8 word list"
  | PList "pyval list"
  | PDict "(string \<times> pyval) list"

text \<open>
  Exceptions. A \<open>failure\<close> is raised by a collaborator (the HTTP client, the node
  directory, the cryptographic library): either \<^verbatim>\<open>asyncio.TimeoutError\<close> (or a subclass of
  it) or another subclass of \<^verbatim>\<open>Exception\<close>, each with \<^verbatim>\<open>type(e).__name__\<close> and \<^verbatim>\<open>str(e)\<close>.
  The other constructors of \<open>exn\<close> are raised by the module's own statements. Exceptions
  outside the \<^verbatim>\<open>Exception\<close> hierarchy (task cancellation, interpreter exit) are not modelled.
\<close>

datatype failure =
    TimeoutError string string
  | Exception string string

datatype exn =
    External failure
  | KeyError string
  | AttributeError
  | TypeError
  | IndexError

text \<open>Truth value of a Python value, as \<^verbatim>\<open>if x:\<close> tests it.\<close>

fun py_truthy :: "pyval \<Rightarrow> bool" where
  "py_truthy PNone = False"
| "py_truthy (PBool b) = b"
| "py_truthy (PInt n) = (n \<noteq> 0)"
| "py_truthy (PStr s) = (s \<noteq> [])"
| "py_truthy (PBytes bs) = (bs \<noteq> [])"
| "py_truthy (PList xs) = (xs \<noteq> [])"
| "py_truthy (PDict kvs) = (kvs \<noteq> [])"

text \<open>
  Python's \<^verbatim>\<open>==\<close>: \<^verbatim>\<open>True == 1\<close> and \<^verbatim>\<open>False == 0\<close>; lists compare element by element;
  dictionaries compare by keys and values, whatever the order.
\<close>

fun py_eq :: "pyval \<Rightarrow> pyval \<Rightarrow> bool"
  and py_eq_list :: "pyval list \<Rightarrow> pyval list \<Rightarrow> bool"
  and py_eq_items :: "(string \<times> pyval) list \<Rightarrow> (string \<times> pyval) list \<Rightarrow> bool" where
  "py_eq PNone PNone = True"
| "py_eq (PBool a) (PBool b) = (a = b)"
| "py_eq (PBool a) (PInt n) = ((if a then 1 else 0) = n)"
| "py_eq (PInt n) (PBool b) = (n = (if b then 1 else 0))"
| "py_eq (PInt m) (PInt n) = (m = n)"
| "py_eq (PStr s) (PStr t) = (s = t)"
| "py_eq (PBytes a) (PBytes b) = (a = b)"
| "py_eq (PList xs) (PList ys) = py_eq_list xs ys"
| "py_eq (PDict xs) (PDict ys) = (length xs = length ys \<and> py_eq_items xs ys)"
| "py_eq _ _ = False"
| "py_eq_list [] ys = (ys = [])"
| "py_eq_list (x # xs) [] = False"
| "py_eq_list (x # xs) (y # ys) = (py_eq x y \<and> py_eq_list xs ys)"
| "py_eq_items [] ys = True"
| "py_eq_items ((k, v) # xs) ys =
     (case map_of ys k of None \<Rightarrow> False | Some w \<Rightarrow> py_eq v w \<and> py_eq_items xs ys)"

text \<open>Lists and dictionaries are unhashable: \<^verbatim>\<open>set([...])\<close> raises \<^verbatim>\<open>TypeError\<close> on them.\<close>

fun py_hashable :: "pyval \<Rightarrow> bool" where
  "py_hashable (PList xs) = False"
| "py_hashable (PDict kvs) = False"
| "py_hashable _ = True"

text \<open>\<^verbatim>\<open>set(xs)\<close>, kept as the list of its members in order of first insertion.\<close>

definition py_set_add :: "pyval list \<Rightarrow> pyval \<Rightarrow> pyval list" where
  "py_set_add s x = (if list_ex (\<lambda>y. py_eq y x) s then s else s @ [x])"

definition py_set :: "pyval list \<Rightarrow> exn + pyval list" where
  "py_set xs = (if list_all py_hashable xs then Inr (foldl py_set_add [] xs) else Inl TypeError)"

text \<open>\<^verbatim>\<open>d.get(k, default)\<close>: only a dictionary has the method.\<close>

fun py_get :: "pyval \<Rightarrow> string \<Rightarrow> pyval \<Rightarrow> exn + pyval" where
  "py_get (PDict kvs) k d = Inr (case map_of kvs k of None \<Rightarrow> d | Some v \<Rightarrow> v)"
| "py_get _ k d = Inl AttributeError"

text \<open>
  \<^verbatim>\<open>d[k]\<close> with a string key: \<^verbatim>\<open>KeyError\<close> on a dictionary without the key,
  \<^verbatim>\<open>TypeError\<close> on every other value (a string or list wants an integer index, the
  others are not subscriptable).
\<close>

fun py_getitem :: "pyval \<Rightarrow> string \<Rightarrow> exn + pyval" where
  "py_getitem (PDict kvs) k = (case map_of kvs k of None \<Rightarrow> Inl (KeyError k) | Some v \<Rightarrow> Inr v)"
| "py_getitem _ k = Inl TypeError"

text \<open>\<^verbatim>\<open>d[k] = v\<close> on a dictionary: the key keeps its place, a new key goes last.\<close>

fun dict_set :: "(string \<times> 'v) list \<Rightarrow> string \<Rightarrow> 'v \<Rightarrow> (string \<times> 'v) list" where
  "dict_set [] k v = [(k, v)]"
| "dict_set ((k', v') # d) k v = (if k' = k then (k, v) # d else (k', v') # dict_set d k v)"

fun py_setitem :: "pyval \<Rightarrow> string \<Rightarrow> pyval \<Rightarrow> exn + pyval" where
  "py_setitem (PDict kvs) k v = Inr (PDict (dict_set kvs k v))"
| "py_setitem _ k v = Inl TypeError"

text \<open>\<^verbatim>\<open>dict(zip(keys, values))\<close>: a repeated key keeps its first place and its last value.\<close>

definition dict_zip :: "string list \<Rightarrow> 'v list \<Rightarrow> (string \<times> 'v) list" where
  "dict_zip ks vs = foldl (\<lambda>d (k, v). dict_set d k v) [] (zip ks vs)"

text \<open>\<^verbatim>\<open>bytes.hex()\<close>: two lower-case hexadecimal digits per byte.\<close>

definition hex_digit :: "nat \<Rightarrow> char" where
  "hex_digit n = ''0123456789abcdef'' ! n"

definition bytes_hex :: "8 word list \<Rightarrow> string" where
  "bytes_hex bs = concat (map (\<lambda>b. [hex_digit (unat b div 16), hex_digit (unat b mod 16)]) bs)"

fun py_hex :: "pyval \<Rightarrow> exn + pyval" where
  "py_hex (PBytes bs) = Inr (PStr (bytes_hex bs))"
| "py_hex _ = Inl AttributeError"

section \<open>Collaborators and the record of their calls\<close>

text \<open>
  Modelled from the spec: the node directory \<^verbatim>\<open>NodesInfo\<close> (\<^verbatim>\<open>abstract.py\<close>) is not among the
  sources. The spec gives \<^verbatim>\<open>lookup(id) \<rightarrow> {host, port}\<close>, failing on an unknown id. The fields
  of \<open>node\<close> hold the text that \<^verbatim>\<open>f'http://{node["host"]}:{node["port"]}'\<close> puts in the URL.
\<close>

record node =
  host :: string
  port :: string

text \<open>The object \<^verbatim>\<open>self\<close> of class \<^verbatim>\<open>SA\<close>: the directory and the default timeout.\<close>

record sa =
  nodes_info :: "string \<Rightarrow> failure + node"
  default_timeout :: int

text \<open>The caller's \<^verbatim>\<open>dkg_key\<close>, with the two keys the module reads.\<close>

record dkg_key =
  party :: "string list"
  public_key :: pyval

text \<open>
  Every call that leaves the module is recorded, oldest first, with its arguments. \<open>'pt\<close> is
  the cryptographic library's type of curve points.
\<close>

datatype 'pt event =
    Lookup string
  | Uuid4 string
  | Post string pyval int
  | AggregateNonce pyval pyval pyval
  | PubToCode 'pt
  | CodeToPub pyval
  | AggregateSignatures pyval "pyval list" 'pt pyval
  | VerifyGroupSignature pyval

record 'pt state =
  trace :: "'pt event list"
  posts :: nat
  uuids :: nat

definition emit :: "'pt event \<Rightarrow> 'pt state \<Rightarrow> 'pt state" where
  "emit e s = s\<lparr>trace := trace s @ [e]\<rparr>"

text \<open>
  What the world outside answers. \<open>session_post k url data timeout\<close> is the outcome of the
  \<open>k\<close>-th HTTP request: \<open>Inl f\<close> when \<^verbatim>\<open>session.post(...)\<close> itself raises (no connection, no
  response line within the timeout), \<open>Inr r\<close> when it yields a response object, \<open>r\<close> being
  the outcome of \<^verbatim>\<open>await response.json()\<close>. \<open>uuid4 k\<close> is the text of the \<open>k\<close>-th identifier
  that \<^verbatim>\<open>uuid.uuid4()\<close> draws. The other fields are the functions of the \<^verbatim>\<open>pyfrost\<close> package
  that the module calls; they are not among the sources and are taken as parameters.
\<close>

record 'pt env =
  session_post :: "nat \<Rightarrow> string \<Rightarrow> pyval \<Rightarrow> int \<Rightarrow> failure + (failure + pyval)"
  uuid4 :: "nat \<Rightarrow> string"
  aggregate_nonce :: "pyval \<Rightarrow> pyval \<Rightarrow> pyval \<Rightarrow> failure + 'pt"
  pub_to_code :: "'pt \<Rightarrow> failure + pyval"
  code_to_pub :: "pyval \<Rightarrow> failure + 'pt"
  aggregate_signatures :: "pyval \<Rightarrow> pyval list \<Rightarrow> 'pt \<Rightarrow> pyval \<Rightarrow> failure + pyval"
  verify_group_signature :: "pyval \<Rightarrow> failure + pyval"

section \<open>The transport: \<^verbatim>\<open>post_request\<close>\<close>

definition timeout_sentinel :: pyval where
  "timeout_sentinel =
     PDict [(''status'', PStr ''TIMEOUT''), (''error'', PStr ''Communication timed out'')]"

definition error_sentinel :: "string \<Rightarrow> string \<Rightarrow> pyval" where
  "error_sentinel name msg =
     PDict [(''status'', PStr ''ERROR''),
            (''error'', PStr (''An exception occurred: '' @ name @ '': '' @ msg))]"

text \<open>
  The \<^verbatim>\<open>try\<close> of lines 14 to 25 stands inside \<^verbatim>\<open>async with session.post(...) as response\<close>:
  it covers \<^verbatim>\<open>response.json()\<close> only, and what \<^verbatim>\<open>session.post\<close> raises reaches the caller.
\<close>

definition post_request ::
  "'pt env \<Rightarrow> string \<Rightarrow> pyval \<Rightarrow> int \<Rightarrow> 'pt state \<Rightarrow> 'pt state \<times> (exn + pyval)" where
  "post_request env url data timeout s =
     (let s' = (emit (Post url data timeout) s)\<lparr>posts := Suc (posts s)\<rparr> in
      case session_post env (posts s) url data timeout of
        Inl f \<Rightarrow> (s', Inl (External f))
      | Inr (Inr body) \<Rightarrow> (s', Inr body)
      | Inr (Inl (TimeoutError name msg)) \<Rightarrow> (s', Inr timeout_sentinel)
      | Inr (Inl (Exception name msg)) \<Rightarrow> (s', Inr (error_sentinel name msg)))"

section \<open>The fan-out shared by both ceremonies\<close>

text \<open>Lines 39 and 67: the list comprehension stops at the first lookup that raises.\<close>

fun lookup_all :: "sa \<Rightarrow> string list \<Rightarrow> 'pt state \<Rightarrow> 'pt state \<times> (exn + node list)" where
  "lookup_all self [] s = (s, Inr [])"
| "lookup_all self (i # ids) s =
     (case nodes_info self i of
        Inl f \<Rightarrow> (emit (Lookup i) s, Inl (External f))
      | Inr n \<Rightarrow>
          (case lookup_all self ids (emit (Lookup i) s) of
             (s', Inl e) \<Rightarrow> (s', Inl e)
           | (s', Inr ns) \<Rightarrow> (s', Inr (n # ns))))"

definition node_url :: "node \<Rightarrow> string \<Rightarrow> string" where
  "node_url n call_method = ''http://'' @ host n @ '':'' @ port n @ call_method"

text \<open>
  \<^verbatim>\<open>asyncio.gather\<close> (lines 44 and 73): every request of the batch is started; the results come
  in the order of the requests; when a request raised, the gather raises. The requests are
  recorded in list order, and of several exceptions the one of the earliest request is kept
  (Python keeps the earliest in time).
\<close>

fun gather ::
  "'pt env \<Rightarrow> string list \<Rightarrow> pyval \<Rightarrow> int \<Rightarrow> 'pt state \<Rightarrow> 'pt state \<times> (exn + pyval list)" where
  "gather env [] data timeout s = (s, Inr [])"
| "gather env (url # urls) data timeout s =
     (case post_request env url data timeout s of
        (s', r) \<Rightarrow>
          (case gather env urls data timeout s' of
             (s'', rs) \<Rightarrow>
               (s'', case r of
                       Inl e \<Rightarrow> Inl e
                     | Inr v \<Rightarrow> (case rs of Inl e \<Rightarrow> Inl e | Inr vs \<Rightarrow> Inr (v # vs)))))"

text \<open>Lines 39 to 45 and 67 to 74: look every member up, post to each, zip ids and responses.\<close>

definition fan_out ::
  "'pt env \<Rightarrow> sa \<Rightarrow> string \<Rightarrow> pyval \<Rightarrow> string list \<Rightarrow> 'pt state
     \<Rightarrow> 'pt state \<times> (exn + (string \<times> pyval) list)" where
  "fan_out env self call_method request_data ids s =
     (case lookup_all self ids s of
        (s1, Inl e) \<Rightarrow> (s1, Inl e)
      | (s1, Inr node_info) \<Rightarrow>
          (case gather env (map (\<lambda>n. node_url n call_method) node_info) request_data
                  (default_timeout self) s1 of
             (s2, Inl e) \<Rightarrow> (s2, Inl e)
           | (s2, Inr responses) \<Rightarrow> (s2, Inr (dict_zip ids responses))))"

section \<open>\<^verbatim>\<open>SA.request_nonces\<close>\<close>

definition request_nonces ::
  "'pt env \<Rightarrow> sa \<Rightarrow> string list \<Rightarrow> int \<Rightarrow> 'pt state
     \<Rightarrow> 'pt state \<times> (exn + (string \<times> pyval) list)" where
  "request_nonces env self ids number_of_nonces s =
     fan_out env self ''/v1/generate-nonces''
       (PDict [(''number_of_nonces'', PInt number_of_nonces)]) ids s"

section \<open>\<^verbatim>\<open>SA.request_signature\<close>\<close>

subsection \<open>Extraction, lines 78 to 93\<close>

record extraction =
  sample_result :: "pyval list"
  signs :: "pyval list"
  aggregated_public_nonces :: "pyval list"
  str_message :: pyval

definition no_extraction :: extraction where
  "no_extraction =
     \<lparr>sample_result = [], signs = [], aggregated_public_nonces = [], str_message = PNone\<rparr>"

text \<open>Lines 85 and 86: \<^verbatim>\<open>data.get('signature_data', {}).get('aggregated_public_nonce')\<close>.\<close>

definition collected_nonce :: "pyval \<Rightarrow> exn + pyval" where
  "collected_nonce data =
     (case py_get data ''signature_data'' (PDict []) of
        Inl e \<Rightarrow> Inl e
      | Inr sd \<Rightarrow> py_get sd ''aggregated_public_nonce'' PNone)"

text \<open>One turn of the loop of line 82, on the response \<open>data\<close>.\<close>

definition extract_step :: "extraction \<Rightarrow> pyval \<Rightarrow> exn + extraction" where
  "extract_step acc data =
     (case py_get data ''hash'' PNone of
        Inl e \<Rightarrow> Inl e
      | Inr h \<Rightarrow>
     (case py_get data ''signature_data'' PNone of
        Inl e \<Rightarrow> Inl e
      | Inr signature_data \<Rightarrow>
     (case collected_nonce data of
        Inl e \<Rightarrow> Inl e
      | Inr nonce \<Rightarrow>
          (let acc1 = (if py_truthy h \<and> str_message acc = PNone
                       then acc\<lparr>str_message := h, sample_result := sample_result acc @ [data]\<rparr>
                       else acc);
               acc2 = (if py_truthy signature_data
                       then acc1\<lparr>signs := signs acc1 @ [signature_data]\<rparr>
                       else acc1)
           in Inr (if py_truthy nonce
                   then acc2\<lparr>aggregated_public_nonces := aggregated_public_nonces acc2 @ [nonce]\<rparr>
                   else acc2)))))"

fun extract_all :: "extraction \<Rightarrow> pyval list \<Rightarrow> exn + extraction" where
  "extract_all acc [] = Inr acc"
| "extract_all acc (data # rest) =
     (case extract_step acc data of Inl e \<Rightarrow> Inl e | Inr acc' \<Rightarrow> extract_all acc' rest)"

subsection \<open>Consistency check, lines 99 to 107\<close>

text \<open>Line 105: \<^verbatim>\<open>data['signature_data']['aggregated_public_nonce']\<close>.\<close>

definition reported_nonce :: "pyval \<Rightarrow> exn + pyval" where
  "reported_nonce data =
     (case py_getitem data ''signature_data'' of
        Inl e \<Rightarrow> Inl e
      | Inr sd \<Rightarrow> py_getitem sd ''aggregated_public_nonce'')"

text \<open>
  The loop of line 104, with the recomputed \<open>code\<close>: \<open>result\<close> is \<^verbatim>\<open>response['result']\<close>. The
  responses are returned as the loop leaves them.
\<close>

fun mark_malicious ::
  "pyval \<Rightarrow> (string \<times> pyval) list \<Rightarrow> string \<Rightarrow> exn + ((string \<times> pyval) list \<times> string)" where
  "mark_malicious code [] result = Inr ([], result)"
| "mark_malicious code ((k, data) # rest) result =
     (case reported_nonce data of
        Inl e \<Rightarrow> Inl e
      | Inr nonce \<Rightarrow>
          if \<not> py_eq nonce code
          then (case py_setitem data ''status'' (PStr ''MALICIOUS'') of
                  Inl e \<Rightarrow> Inl e
                | Inr data' \<Rightarrow>
                    (case mark_malicious code rest ''FAILED'' of
                       Inl e \<Rightarrow> Inl e
                     | Inr (rest', result') \<Rightarrow> Inr ((k, data') # rest', result')))
          else (case mark_malicious code rest result of
                  Inl e \<Rightarrow> Inl e
                | Inr (rest', result') \<Rightarrow> Inr ((k, data) # rest', result')))"

definition consistency_check ::
  "'pt env \<Rightarrow> dkg_key \<Rightarrow> pyval \<Rightarrow> extraction \<Rightarrow> (string \<times> pyval) list \<Rightarrow> 'pt state
     \<Rightarrow> 'pt state \<times> (exn + ((string \<times> pyval) list \<times> string))" where
  "consistency_check env dkg nonces_list ex signatures s =
     (case py_set (aggregated_public_nonces ex) of
        Inl e \<Rightarrow> (s, Inl e)
      | Inr nonce_set \<Rightarrow>
          if length nonce_set = 1 then (s, Inr (signatures, ''SUCCESSFUL''))
          else
            (let s1 = emit (AggregateNonce (str_message ex) nonces_list (public_key dkg)) s in
             case aggregate_nonce env (str_message ex) nonces_list (public_key dkg) of
               Inl f \<Rightarrow> (s1, Inl (External f))
             | Inr pt \<Rightarrow>
                 (let s2 = emit (PubToCode pt) s1 in
                  case pub_to_code env pt of
                    Inl f \<Rightarrow> (s2, Inl (External f))
                  | Inr code \<Rightarrow>
                      (case mark_malicious code signatures ''SUCCESSFUL'' of
                         Inl e \<Rightarrow> (s2, Inl e)
                       | Inr marked \<Rightarrow> (s2, Inr marked)))))"

subsection \<open>Status check, lines 108 to 111\<close>

fun status_check :: "(string \<times> pyval) list \<Rightarrow> string \<Rightarrow> exn + string" where
  "status_check [] result = Inr result"
| "status_check ((k, data) # rest) result =
     (case py_getitem data ''status'' of
        Inl e \<Rightarrow> Inl e
      | Inr st \<Rightarrow> if py_eq st (PStr ''MALICIOUS'') then Inr ''FAILED'' else status_check rest result)"

subsection \<open>Aggregation, verification and result shaping, lines 121 to 135\<close>

definition shape_success :: "pyval \<Rightarrow> pyval list \<Rightarrow> string \<Rightarrow> exn + pyval" where
  "shape_success aggregated_sign sample request_id =
     (case py_getitem aggregated_sign ''message_hash'' of
        Inl e \<Rightarrow> Inl e
      | Inr message_hash \<Rightarrow>
     (case py_hex message_hash of
        Inl e \<Rightarrow> Inl e
      | Inr hx \<Rightarrow>
     (case py_setitem aggregated_sign ''message_hash'' hx of
        Inl e \<Rightarrow> Inl e
      | Inr a1 \<Rightarrow>
     (case py_setitem a1 ''result'' (PStr ''SUCCESSFUL'') of
        Inl e \<Rightarrow> Inl e
      | Inr a2 \<Rightarrow>
     (case py_setitem a2 ''signature_data'' (PList sample) of
        Inl e \<Rightarrow> Inl e
      | Inr a3 \<Rightarrow> py_setitem a3 ''request_id'' (PStr request_id))))))"

definition aggregate_and_verify ::
  "'pt env \<Rightarrow> dkg_key \<Rightarrow> string \<Rightarrow> extraction \<Rightarrow> 'pt state \<Rightarrow> 'pt state \<times> (exn + pyval)" where
  "aggregate_and_verify env dkg request_id ex s =
     (case aggregated_public_nonces ex of
        [] \<Rightarrow> (s, Inl IndexError)
      | code # others \<Rightarrow>
          (let s1 = emit (CodeToPub code) s in
           case code_to_pub env code of
             Inl f \<Rightarrow> (s1, Inl (External f))
           | Inr pt \<Rightarrow>
               (let s2 = emit (AggregateSignatures (str_message ex) (signs ex) pt (public_key dkg)) s1 in
                case aggregate_signatures env (str_message ex) (signs ex) pt (public_key dkg) of
                  Inl f \<Rightarrow> (s2, Inl (External f))
                | Inr aggregated_sign \<Rightarrow>
                    (let s3 = emit (VerifyGroupSignature aggregated_sign) s2 in
                     case verify_group_signature env aggregated_sign of
                       Inl f \<Rightarrow> (s3, Inl (External f))
                     | Inr verified \<Rightarrow>
                         if py_truthy verified
                         then (s3, shape_success aggregated_sign (sample_result ex) request_id)
                         else (s3, py_setitem aggregated_sign ''result'' (PStr ''FAILED''))))))"

subsection \<open>The whole call\<close>

definition guard_failed :: pyval where
  "guard_failed = PDict [(''result'', PStr ''FAILED''), (''signatures'', PNone)]"

definition sign_payload :: "string \<Rightarrow> dkg_key \<Rightarrow> pyval \<Rightarrow> pyval \<Rightarrow> pyval" where
  "sign_payload request_id dkg nonces_list sa_data =
     PDict [(''request_id'', PStr request_id), (''dkg_public_key'', public_key dkg),
            (''nonces_list'', nonces_list), (''data'', sa_data)]"

text \<open>Lines 95 to 135, on the responses collected by the fan-out.\<close>

definition conclude ::
  "'pt env \<Rightarrow> dkg_key \<Rightarrow> pyval \<Rightarrow> string \<Rightarrow> (string \<times> pyval) list \<Rightarrow> extraction \<Rightarrow> 'pt state
     \<Rightarrow> 'pt state \<times> (exn + pyval)" where
  "conclude env dkg nonces_list request_id signatures ex s =
     (case consistency_check env dkg nonces_list ex signatures s of
        (s2, Inl e) \<Rightarrow> (s2, Inl e)
      | (s2, Inr (signatures', result)) \<Rightarrow>
          (case status_check signatures' result of
             Inl e \<Rightarrow> (s2, Inl e)
           | Inr result' \<Rightarrow>
               if result' = ''FAILED''
               then (s2, Inr (PDict [(''result'', PStr ''FAILED''),
                                     (''signatures'', PDict signatures')]))
               else aggregate_and_verify env dkg request_id ex s2))"

text \<open>Lines 60 to 74: the fresh request id, the shared payload and the fan-out.\<close>

definition collect_signatures ::
  "'pt env \<Rightarrow> sa \<Rightarrow> dkg_key \<Rightarrow> pyval \<Rightarrow> pyval \<Rightarrow> string list \<Rightarrow> 'pt state
     \<Rightarrow> 'pt state \<times> (exn + string \<times> (string \<times> pyval) list)" where
  "collect_signatures env self dkg nonces_list sa_data sign_party s =
     (let request_id = uuid4 env (uuids s);
          s0 = (emit (Uuid4 request_id) s)\<lparr>uuids := Suc (uuids s)\<rparr>
      in case fan_out env self ''/v1/sign''
                (sign_payload request_id dkg nonces_list sa_data) sign_party s0 of
           (s1, Inl e) \<Rightarrow> (s1, Inl e)
         | (s1, Inr signatures) \<Rightarrow> (s1, Inr (request_id, signatures)))"

definition request_signature ::
  "'pt env \<Rightarrow> sa \<Rightarrow> dkg_key \<Rightarrow> pyval \<Rightarrow> pyval \<Rightarrow> string list \<Rightarrow> 'pt state
     \<Rightarrow> 'pt state \<times> (exn + pyval)" where
  "request_signature env self dkg nonces_list sa_data sign_party s =
     (if \<not> set sign_party \<subseteq> set (party dkg) then (s, Inr guard_failed)
      else
        (case collect_signatures env self dkg nonces_list sa_data sign_party s of
           (s1, Inl e) \<Rightarrow> (s1, Inl e)
         | (s1, Inr (request_id, signatures)) \<Rightarrow>
             (case extract_all no_extraction (map snd signatures) of
                Inl e \<Rightarrow> (s1, Inl e)
              | Inr ex \<Rightarrow> conclude env dkg nonces_list request_id signatures ex s1)))"

section \<open>Kinds of recorded calls\<close>

fun is_recompute :: "'pt event \<Rightarrow> bool" where
  "is_recompute (AggregateNonce m nl pk) = True"
| "is_recompute (PubToCode pt) = True"
| "is_recompute _ = False"

fun is_aggregation :: "'pt event \<Rightarrow> bool" where
  "is_aggregation (CodeToPub c) = True"
| "is_aggregation (AggregateSignatures m sg pt pk) = True"
| "is_aggregation (VerifyGroupSignature a) = True"
| "is_aggregation _ = False"

fun is_transport :: "'pt event \<Rightarrow> bool" where
  "is_transport (Lookup i) = True"
| "is_transport (Post url d t) = True"
| "is_transport _ = False"

text \<open>The \<^verbatim>\<open>hash\<close> a response reports, \<^verbatim>\<open>None\<close> when it has none.\<close>

definition reported_hash :: "pyval \<Rightarrow> pyval" where
  "reported_hash data = (case py_get data ''hash'' PNone of Inl e \<Rightarrow> PNone | Inr h \<Rightarrow> h)"

text \<open>
  A response after line 106 has set its \<^verbatim>\<open>status\<close> to \<^verbatim>\<open>MALICIOUS\<close>, and whether the nonce a
  response reports at line 105 differs from the recomputed \<open>code\<close>.
\<close>

definition flagged :: "pyval \<Rightarrow> pyval" where
  "flagged data =
     (case py_setitem data ''status'' (PStr ''MALICIOUS'') of Inl e \<Rightarrow> data | Inr data' \<Rightarrow> data')"

definition disagrees :: "pyval \<Rightarrow> pyval \<Rightarrow> bool" where
  "disagrees code data =
     (case reported_nonce data of Inl e \<Rightarrow> False | Inr nonce \<Rightarrow> \<not> py_eq nonce code)"

definition has_status :: "pyval \<Rightarrow> bool" where
  "has_status data = (case py_getitem data ''status'' of Inl e \<Rightarrow> False | Inr st \<Rightarrow> True)"

definition is_malicious :: "pyval \<Rightarrow> bool" where
  "is_malicious data = (py_getitem data ''status'' = Inr (PStr ''MALICIOUS''))"

section \<open>A concrete deployment\<close>

text \<open>
  Three nodes, a directory that knows them, a library whose recomputed aggregated nonce has
  the code 7, and a signer's response with a given hash, nonce and status. The network and
  the verifier's verdict are parameters.
\<close>

definition peer_share :: "string \<Rightarrow> pyval \<Rightarrow> string \<Rightarrow> pyval" where
  "peer_share h nonce st =
     PDict [(''hash'', PStr h),
            (''signature_data'',
               PDict [(''aggregated_public_nonce'', nonce), (''signature'', PInt 5)]),
            (''status'', PStr st)]"

definition example_sa :: sa where
  "example_sa =
     \<lparr>nodes_info = (\<lambda>i. if i = ''1'' \<or> i = ''2'' \<or> i = ''3''
                         then Inr \<lparr>host = ''node'' @ i, port = ''5000''\<rparr>
                         else Inl (Exception ''KeyError'' i)),
      default_timeout = 200\<rparr>"

definition example_dkg :: dkg_key where
  "example_dkg = \<lparr>party = [''1'', ''2'', ''3''], public_key = PInt 77\<rparr>"

definition example_env ::
  "(nat \<Rightarrow> string \<Rightarrow> pyval \<Rightarrow> int \<Rightarrow> failure + (failure + pyval)) \<Rightarrow> pyval \<Rightarrow> nat env" where
  "example_env net verdict =
     \<lparr>session_post = net,
      uuid4 = (\<lambda>k. replicate (Suc k) CHR ''u''),
      aggregate_nonce = (\<lambda>m nl pk. Inr 7),
      pub_to_code = (\<lambda>pt. Inr (PInt (int pt))),
      code_to_pub = (\<lambda>c. case c of PInt n \<Rightarrow> Inr (nat n)
                                | _ \<Rightarrow> Inl (Exception ''TypeError'' ''not a code'')),
      aggregate_signatures = (\<lambda>m sg pt pk.
         Inr (PDict [(''signature'', PInt 99), (''message_hash'', PBytes [0xAB, 0x01])])),
      verify_group_signature = (\<lambda>a. Inr verdict)\<rparr>"

definition idle :: "nat state" where
  "idle = \<lparr>trace = [], posts = 0, uuids = 0\<rparr>"

text \<open>The first call's payload and the state once its signers have been asked.\<close>

definition example_payload :: pyval where
  "example_payload = sign_payload ''u'' example_dkg (PDict []) (PDict [])"

definition collected_state :: "string list \<Rightarrow> nat state" where
  "collected_state ids =
     \<lparr>trace = Uuid4 ''u'' # map Lookup ids @
               map (\<lambda>i. Post (''http://node'' @ i @ '':5000/v1/sign'') example_payload 200) ids,
      posts = length ids, uuids = 1\<rparr>"

text \<open>What the extraction loop collects from one share.\<close>

definition share_extraction :: "pyval \<Rightarrow> extraction" where
  "share_extraction data =
     \<lparr>sample_result = [data],
      signs = [projr (py_get data ''signature_data'' PNone)],
      aggregated_public_nonces = [projr (collected_nonce data)],
      str_message = reported_hash data\<rparr>"

text \<open>Networks: every peer answers with an honest share.\<close>

definition net_honest :: "nat \<Rightarrow> string \<Rightarrow> pyval \<Rightarrow> int \<Rightarrow> failure + (failure + pyval)" where
  "net_honest k url d t = Inr (Inr (peer_share ''msg'' (PInt 7) ''SUCCESSFUL''))"

text \<open>No peer accepts the connection: \<^verbatim>\<open>session.post\<close> raises.\<close>

definition net_refused :: "nat \<Rightarrow> string \<Rightarrow> pyval \<Rightarrow> int \<Rightarrow> failure + (failure + pyval)" where
  "net_refused k url d t = Inl (Exception ''ClientConnectorError'' ''Cannot connect to host'')"

text \<open>Every peer sends a body that is not JSON: \<^verbatim>\<open>response.json()\<close> raises.\<close>

definition net_garbled :: "nat \<Rightarrow> string \<Rightarrow> pyval \<Rightarrow> int \<Rightarrow> failure + (failure + pyval)" where
  "net_garbled k url d t = Inr (Inl (Exception ''ContentTypeError'' ''unexpected mimetype''))"

text \<open>Every peer is too slow with its body: \<^verbatim>\<open>response.json()\<close> times out.\<close>

definition net_slow :: "nat \<Rightarrow> string \<Rightarrow> pyval \<Rightarrow> int \<Rightarrow> failure + (failure + pyval)" where
  "net_slow k url d t = Inr (Inl (TimeoutError ''TimeoutError'' []))"

text \<open>The second request is answered with the nonce code 8, the others with 7.\<close>

definition net_forged :: "nat \<Rightarrow> string \<Rightarrow> pyval \<Rightarrow> int \<Rightarrow> failure + (failure + pyval)" where
  "net_forged k url d t =
     Inr (Inr (peer_share ''msg'' (PInt (if k = 1 then 8 else 7)) ''SUCCESSFUL''))"

text \<open>Every request is answered with the nonce code 8.\<close>

definition net_all_forged :: "nat \<Rightarrow> string \<Rightarrow> pyval \<Rightarrow> int \<Rightarrow> failure + (failure + pyval)" where
  "net_all_forged k url d t = Inr (Inr (peer_share ''msg'' (PInt 8) ''SUCCESSFUL''))"

text \<open>No peer sends a response line within the timeout: \<^verbatim>\<open>session.post\<close> times out.\<close>

definition net_silent :: "nat \<Rightarrow> string \<Rightarrow> pyval \<Rightarrow> int \<Rightarrow> failure + (failure + pyval)" where
  "net_silent k url d t = Inl (TimeoutError ''TimeoutError'' [])"

text \<open>The peer of the second request refuses the connection, the others answer.\<close>

definition net_second_refused ::
  "nat \<Rightarrow> string \<Rightarrow> pyval \<Rightarrow> int \<Rightarrow> failure + (failure + pyval)" where
  "net_second_refused k url d t =
     (if k = 1 then Inl (Exception ''ClientConnectorError'' ''Cannot connect to host'')
      else Inr (Inr (PDict [(''status'', PStr ''SUCCESSFUL'')])))"

text \<open>
  The first peer answers with the nonce code 7, the second reports itself malicious with the
  code 8, the body of the third does not arrive in time.
\<close>

definition net_confession_then_slow ::
  "nat \<Rightarrow> string \<Rightarrow> pyval \<Rightarrow> int \<Rightarrow> failure + (failure + pyval)" where
  "net_confession_then_slow k url d t =
     (if k = 0 then Inr (Inr (peer_share ''msg'' (PInt 7) ''SUCCESSFUL''))
      else if k = 1 then Inr (Inr (peer_share ''msg'' (PInt 8) ''MALICIOUS''))
      else Inr (Inl (TimeoutError ''TimeoutError'' [])))"

text \<open>The second request is answered with an empty nonce field, the others with the code 7.\<close>

definition net_blank :: "nat \<Rightarrow> string \<Rightarrow> pyval \<Rightarrow> int \<Rightarrow> failure + (failure + pyval)" where
  "net_blank k url d t =
     Inr (Inr (peer_share ''msg'' (if k = 1 then PStr [] else PInt 7) ''SUCCESSFUL''))"

text \<open>The second peer reports itself malicious.\<close>

definition net_confessing :: "nat \<Rightarrow> string \<Rightarrow> pyval \<Rightarrow> int \<Rightarrow> failure + (failure + pyval)" where
  "net_confessing k url d t =
     Inr (Inr (peer_share ''msg'' (PInt 7) (if k = 1 then ''MALICIOUS'' else ''SUCCESSFUL'')))"

text \<open>The first peer reports no hash, the second the hash \<^verbatim>\<open>m2\<close>, the third the hash \<^verbatim>\<open>m3\<close>.\<close>

definition net_hashes :: "nat \<Rightarrow> string \<Rightarrow> pyval \<Rightarrow> int \<Rightarrow> failure + (failure + pyval)" where
  "net_hashes k url d t =
     Inr (Inr (peer_share (if k = 0 then [] else if k = 1 then ''m2'' else ''m3'')
                 (PInt 7) ''SUCCESSFUL''))"

section \<open>Evaluating the model\<close>

lemmas example_defs = example_env_def example_sa_def example_dkg_def idle_def peer_share_def
  example_payload_def collected_state_def share_extraction_def

lemmas run_defs = request_signature_def collect_signatures_def fan_out_def post_request_def
  emit_def node_url_def dict_zip_def timeout_sentinel_def error_sentinel_def no_extraction_def
  extract_step_def collected_nonce_def reported_nonce_def conclude_def consistency_check_def py_set_def py_set_add_def
  sign_payload_def aggregate_and_verify_def shape_success_def guard_failed_def
  request_nonces_def bytes_hex_def hex_digit_def reported_hash_def flagged_def disagrees_def
  has_status_def is_malicious_def Let_def

section \<open>Auxiliary facts\<close>

subsection \<open>Dictionaries\<close>

lemma map_fst_dict_set:
  "map fst (dict_set d k v) = (if k \<in> set (map fst d) then map fst d else map fst d @ [k])"
  by (induction d k v rule: dict_set.induct) auto

lemma map_of_dict_set: "map_of (dict_set d k v) = (map_of d)(k \<mapsto> v)"
  by (induction d k v rule: dict_set.induct) auto

lemma dict_set_fresh: "k \<notin> set (map fst d) \<Longrightarrow> dict_set d k v = d @ [(k, v)]"
  by (induction d k v rule: dict_set.induct) auto

lemma remdups_snoc: "remdups (xs @ [k]) = filter (\<lambda>x. x \<noteq> k) (remdups xs) @ [k]"
  by (induction xs) auto

lemma foldl_dict_set_keys:
  "map fst (foldl (\<lambda>d (k, v). dict_set d k v) acc kvs) =
     map fst acc @ filter (\<lambda>k. k \<notin> set (map fst acc)) (rev (remdups (rev (map fst kvs))))"
proof (induction kvs arbitrary: acc)
  case Nil
  then show ?case by simp
next
  case (Cons kv kvs)
  obtain k v where kv: "kv = (k, v)" by (cases kv)
  have F: "rev (remdups (rev (k # map fst kvs))) =
             k # filter (\<lambda>x. x \<noteq> k) (rev (remdups (rev (map fst kvs))))"
    by (simp add: remdups_snoc rev_filter)
  show ?case
  proof (cases "k \<in> set (map fst acc)")
    case True
    then show ?thesis
      unfolding kv by (simp only: foldl_Cons prod.case Cons.IH map_fst_dict_set F list.map fst_conv)
         (auto intro!: filter_cong)
  next
    case False
    then show ?thesis
      unfolding kv by (simp only: foldl_Cons prod.case Cons.IH map_fst_dict_set F list.map fst_conv)
         (auto intro: filter_cong)
  qed
qed

lemma foldl_dict_set_distinct:
  "distinct (map fst acc @ map fst kvs) \<Longrightarrow>
     foldl (\<lambda>d (k, v). dict_set d k v) acc kvs = acc @ kvs"
proof (induction kvs arbitrary: acc)
  case Nil
  then show ?case by simp
next
  case (Cons kv kvs)
  then show ?case by (cases kv) (simp add: dict_set_fresh)
qed

lemma dict_zip_keys:
  "length vs = length ks \<Longrightarrow> map fst (dict_zip ks vs) = rev (remdups (rev ks))"
  by (simp add: dict_zip_def foldl_dict_set_keys)

lemma dict_zip_distinct:
  "length vs = length ks \<Longrightarrow> distinct ks \<Longrightarrow> dict_zip ks vs = zip ks vs"
  by (simp add: dict_zip_def foldl_dict_set_distinct)

subsection \<open>State\<close>

lemma post_request_state:
  "fst (post_request env url d t s) = s\<lparr>trace := trace s @ [Post url d t], posts := Suc (posts s)\<rparr>"
  by (simp add: post_request_def emit_def Let_def split: sum.splits failure.splits)

lemma post_request_returns:
  "session_post env (posts s) url d t = Inr r \<Longrightarrow> \<exists>v. snd (post_request env url d t s) = Inr v"
  by (simp add: post_request_def Let_def split: sum.splits failure.splits)

lemma gather_state:
  "fst (gather env urls d t s) =
     s\<lparr>trace := trace s @ map (\<lambda>u. Post u d t) urls, posts := posts s + length urls\<rparr>"
proof (induction urls arbitrary: s)
  case Nil
  then show ?case by simp
next
  case (Cons u us)
  have "fst (gather env (u # us) d t s) = fst (gather env us d t (fst (post_request env u d t s)))"
    by (simp split: prod.splits)
  then show ?case by (simp add: Cons post_request_state)
qed

lemma gather_length: "gather env urls d t s = (s', Inr rs) \<Longrightarrow> length rs = length urls"
proof (induction urls arbitrary: s s' rs)
  case Nil
  then show ?case by simp
next
  case (Cons u us)
  then show ?case
    by (fastforce split: prod.splits sum.splits)
qed

lemma gather_responsive:
  "\<forall>k url d t. \<exists>r. session_post env k url d t = Inr r \<Longrightarrow> \<exists>rs. snd (gather env urls d t s) = Inr rs"
proof (induction urls arbitrary: s)
  case Nil
  then show ?case by simp
next
  case (Cons u us)
  from Cons.prems obtain r where r: "session_post env (posts s) u d t = Inr r" by blast
  from post_request_returns [OF r] obtain v where v: "snd (post_request env u d t s) = Inr v"
    by blast
  from Cons.IH [OF Cons.prems, of "fst (post_request env u d t s)"] obtain rs
    where "snd (gather env us d t (fst (post_request env u d t s))) = Inr rs" by blast
  with v show ?case
    by (auto split: prod.splits sum.splits)
qed

lemma lookup_all_known:
  "\<forall>i\<in>set ids. \<exists>n. nodes_info self i = Inr n \<Longrightarrow>
     lookup_all self ids s =
       (s\<lparr>trace := trace s @ map Lookup ids\<rparr>, Inr (map (\<lambda>i. projr (nodes_info self i)) ids))"
proof (induction ids arbitrary: s)
  case Nil
  then show ?case by simp
next
  case (Cons i ids)
  then show ?case by (auto simp: emit_def)
qed

lemma lookup_all_Inr:
  "lookup_all self ids s = (s', Inr ns) \<Longrightarrow>
     s' = s\<lparr>trace := trace s @ map Lookup ids\<rparr> \<and> ns = map (\<lambda>i. projr (nodes_info self i)) ids"
proof (induction ids arbitrary: s s' ns)
  case Nil
  then show ?case by simp
next
  case (Cons i ids)
  then show ?case
    by (fastforce simp: emit_def split: sum.splits prod.splits)
qed

lemma lookup_all_Inl:
  "lookup_all self ids s = (s', Inl e) \<Longrightarrow>
     \<exists>n. s' = s\<lparr>trace := trace s @ map Lookup (take n ids)\<rparr>"
proof (induction ids arbitrary: s s')
  case Nil
  then show ?case by simp
next
  case (Cons i ids)
  show ?case
  proof (cases "nodes_info self i")
    case (Inl f)
    with Cons.prems have "s' = s\<lparr>trace := trace s @ map Lookup (take 1 (i # ids))\<rparr>"
      by (simp add: emit_def)
    then show ?thesis by blast
  next
    case (Inr n)
    with Cons.prems have "lookup_all self ids (emit (Lookup i) s) = (s', Inl e)"
      by (simp split: prod.splits sum.splits)
    from Cons.IH [OF this] obtain m where
      "s' = (emit (Lookup i) s)\<lparr>trace := trace (emit (Lookup i) s) @ map Lookup (take m ids)\<rparr>"
      by blast
    then have "s' = s\<lparr>trace := trace s @ map Lookup (take (Suc m) (i # ids))\<rparr>"
      by (simp add: emit_def)
    then show ?thesis by blast
  qed
qed

text \<open>What a fan-out records: lookups and requests, every request with the shared body.\<close>

lemma fan_out_Inr:
  assumes "fan_out env self cm rd ids s = (s', Inr sigs)"
  shows "\<exists>rs. length rs = length ids \<and> sigs = dict_zip ids rs \<and>
           s' = s\<lparr>trace := trace s @ map Lookup ids @
                       map (\<lambda>i. Post (node_url (projr (nodes_info self i)) cm) rd (default_timeout self)) ids,
                   posts := posts s + length ids\<rparr>"
proof -
  from assms obtain s1 ns where l: "lookup_all self ids s = (s1, Inr ns)"
    by (auto simp: fan_out_def split: prod.splits sum.splits)
  from lookup_all_Inr [OF l] have s1: "s1 = s\<lparr>trace := trace s @ map Lookup ids\<rparr>"
    and ns: "ns = map (\<lambda>i. projr (nodes_info self i)) ids" by simp_all
  from assms l obtain rs where
    g: "gather env (map (\<lambda>n. node_url n cm) ns) rd (default_timeout self) s1 = (s', Inr rs)"
    and sigs: "sigs = dict_zip ids rs"
    by (auto simp: fan_out_def split: prod.splits sum.splits)
  from gather_length [OF g] have len: "length rs = length ids" by (simp add: ns)
  from gather_state [of env "map (\<lambda>n. node_url n cm) ns" rd "default_timeout self" s1] g
  have "s' = s1\<lparr>trace := trace s1 @ map (\<lambda>u. Post u rd (default_timeout self)) (map (\<lambda>n. node_url n cm) ns),
                posts := posts s1 + length ns\<rparr>" by simp
  then have "s' = s\<lparr>trace := trace s @ map Lookup ids @
                       map (\<lambda>i. Post (node_url (projr (nodes_info self i)) cm) rd (default_timeout self)) ids,
                   posts := posts s + length ids\<rparr>"
    by (simp add: s1 ns comp_def)
  with len sigs show ?thesis by blast
qed

lemma fan_out_events:
  assumes "fan_out env self cm rd ids s = (s', r)"
  shows "\<exists>evs. trace s' = trace s @ evs \<and> uuids s' = uuids s \<and> list_all is_transport evs \<and>
           (\<forall>u d t. Post u d t \<in> set evs \<longrightarrow> d = rd)"
proof (cases "lookup_all self ids s")
  case (Pair s1 r1)
  show ?thesis
  proof (cases r1)
    case (Inl e)
    from lookup_all_Inl [OF Pair [unfolded Inl]] obtain n where
      s1: "s1 = s\<lparr>trace := trace s @ map Lookup (take n ids)\<rparr>" by blast
    from assms Pair Inl have "s' = s1" by (simp add: fan_out_def)
    with s1 show ?thesis
      by (intro exI [of _ "map Lookup (take n ids)"]) (auto simp: list_all_iff)
  next
    case (Inr ns)
    from lookup_all_Inr [OF Pair [unfolded Inr]] have s1: "s1 = s\<lparr>trace := trace s @ map Lookup ids\<rparr>"
      by simp
    from assms Pair Inr
    have "s' = fst (gather env (map (\<lambda>n. node_url n cm) ns) rd (default_timeout self) s1)"
      by (auto simp: fan_out_def split: prod.splits sum.splits)
    then have "s' = s1\<lparr>trace := trace s1 @ map (\<lambda>u. Post u rd (default_timeout self)) (map (\<lambda>n. node_url n cm) ns),
        posts := posts s1 + length (map (\<lambda>n. node_url n cm) ns)\<rparr>"
      by (simp only: gather_state)
    with s1 show ?thesis
      by (intro exI [of _ "map Lookup ids @ map (\<lambda>u. Post u rd (default_timeout self)) (map (\<lambda>n. node_url n cm) ns)"])
         (auto simp: list_all_iff)
  qed
qed

lemma fan_out_known_responsive:
  assumes "\<forall>i\<in>set ids. \<exists>n. nodes_info self i = Inr n"
      and "\<forall>k url d t. \<exists>r. session_post env k url d t = Inr r"
  shows "\<exists>s' sigs. fan_out env self cm rd ids s = (s', Inr sigs)"
proof -
  from gather_responsive [OF assms(2)] obtain rs where
    "snd (gather env (map (\<lambda>n. node_url n cm) (map (\<lambda>i. projr (nodes_info self i)) ids)) rd
            (default_timeout self) (s\<lparr>trace := trace s @ map Lookup ids\<rparr>)) = Inr rs" by blast
  then show ?thesis
    by (auto simp: fan_out_def lookup_all_known [OF assms(1)] split: prod.splits sum.splits)
qed

subsection \<open>Equality and sets of hashable values\<close>

lemma py_eq_refl: "py_hashable x \<Longrightarrow> py_eq x x"
  by (cases x) auto

lemma py_eq_sym: "py_hashable x \<Longrightarrow> py_eq x y \<Longrightarrow> py_eq y x"
  by (cases x; cases y) (auto split: if_splits)

lemma py_eq_trans: "py_hashable y \<Longrightarrow> py_eq x y \<Longrightarrow> py_eq y z \<Longrightarrow> py_eq x z"
  by (cases y; cases x; cases z) (auto split: if_splits)

lemma py_eq_PStr: "py_eq x (PStr t) = (x = PStr t)"
  by (cases x) auto

lemma py_set_add_mono: "set acc \<subseteq> set (foldl py_set_add acc xs)"
proof (induction xs arbitrary: acc)
  case Nil
  show ?case by simp
next
  case (Cons x xs)
  have "set acc \<subseteq> set (py_set_add acc x)" by (auto simp: py_set_add_def)
  also have "\<dots> \<subseteq> set (foldl py_set_add (py_set_add acc x) xs)" by (rule Cons.IH)
  finally show ?case by simp
qed

lemma py_set_add_members: "set (foldl py_set_add acc xs) \<subseteq> set acc \<union> set xs"
proof (induction xs arbitrary: acc)
  case Nil
  show ?case by simp
next
  case (Cons x xs)
  have "set (py_set_add acc x) \<subseteq> set acc \<union> {x}" by (auto simp: py_set_add_def)
  with Cons.IH [of "py_set_add acc x"] show ?case by auto
qed

lemma py_set_add_represents:
  "x \<in> set xs \<Longrightarrow> py_hashable x \<Longrightarrow> \<exists>y\<in>set (foldl py_set_add acc xs). py_eq y x"
proof (induction xs arbitrary: acc)
  case Nil
  then show ?case by simp
next
  case (Cons a xs)
  show ?case
  proof (cases "x = a")
    case True
    have "\<exists>y\<in>set (py_set_add acc a). py_eq y a"
      using Cons.prems(2) True by (auto simp: py_set_add_def list_ex_iff py_eq_refl)
    then obtain y where "y \<in> set (py_set_add acc a)" "py_eq y a" by blast
    with py_set_add_mono [of "py_set_add acc a" xs] True show ?thesis by auto
  next
    case False
    with Cons.prems have "x \<in> set xs" by simp
    from Cons.IH [OF this Cons.prems(2)] show ?thesis by simp
  qed
qed

text \<open>Two collected nonces that differ make a set of more than one value.\<close>

lemma py_set_single:
  assumes "py_set xs = Inr [e]" "a \<in> set xs" "b \<in> set xs"
  shows "py_eq a b"
proof -
  from assms(1) have h: "list_all py_hashable xs" and f: "foldl py_set_add [] xs = [e]"
    by (auto simp: py_set_def split: if_splits)
  from h assms have ha: "py_hashable a" and hb: "py_hashable b" by (auto simp: list_all_iff)
  from py_set_add_members [of "[]" xs] f have "e \<in> set xs" by auto
  with h have he: "py_hashable e" by (auto simp: list_all_iff)
  from py_set_add_represents [OF assms(2) ha, of "[]"] f have "py_eq e a" by simp
  then have "py_eq a e" using he by (rule py_eq_sym [rotated])
  moreover from py_set_add_represents [OF assms(3) hb, of "[]"] f have "py_eq e b" by simp
  ultimately show ?thesis using he by (blast intro: py_eq_trans)
qed

subsection \<open>Extraction\<close>

lemma reported_collected: "reported_nonce d = Inr v \<Longrightarrow> collected_nonce d = Inr v"
  by (cases d) (auto simp: reported_nonce_def collected_nonce_def split: option.splits sum.splits
       elim!: py_getitem.elims)

lemma extract_all_nonces:
  "extract_all acc rs = Inr ex \<Longrightarrow>
     aggregated_public_nonces ex =
       aggregated_public_nonces acc @ filter py_truthy (map (\<lambda>d. projr (collected_nonce d)) rs)"
proof (induction rs arbitrary: acc)
  case Nil
  then show ?case by simp
next
  case (Cons d rs)
  from Cons.prems obtain acc' where s: "extract_step acc d = Inr acc'"
    and r: "extract_all acc' rs = Inr ex" by (auto split: sum.splits)
  from s have "aggregated_public_nonces acc' =
      aggregated_public_nonces acc @ filter py_truthy [projr (collected_nonce d)]"
    by (auto simp: extract_step_def Let_def split: sum.splits if_splits)
  with Cons.IH [OF r] show ?case by simp
qed

lemma py_truthy_not_None: "py_truthy h \<Longrightarrow> h \<noteq> PNone"
  by auto

lemma extract_step_message:
  assumes "extract_step acc d = Inr acc'"
  shows "str_message acc' = (if py_truthy (reported_hash d) \<and> str_message acc = PNone
                             then reported_hash d else str_message acc)"
    and "sample_result acc' = (if py_truthy (reported_hash d) \<and> str_message acc = PNone
                             then sample_result acc @ [d] else sample_result acc)"
  using assms
  by (auto simp: extract_step_def reported_hash_def Let_def split: sum.splits if_splits)

lemma extract_all_message:
  "extract_all acc rs = Inr ex \<Longrightarrow>
     str_message ex =
       (if str_message acc \<noteq> PNone then str_message acc
        else case find (\<lambda>d. py_truthy (reported_hash d)) rs of
               None \<Rightarrow> PNone | Some d \<Rightarrow> reported_hash d) \<and>
     sample_result ex =
       sample_result acc @
       (if str_message acc \<noteq> PNone then []
        else case find (\<lambda>d. py_truthy (reported_hash d)) rs of None \<Rightarrow> [] | Some d \<Rightarrow> [d])"
proof (induction rs arbitrary: acc)
  case Nil
  then show ?case by simp
next
  case (Cons d rs)
  from Cons.prems obtain acc' where s: "extract_step acc d = Inr acc'"
    and r: "extract_all acc' rs = Inr ex" by (auto split: sum.splits)
  note m = extract_step_message [OF s]
  show ?case
  proof (cases "py_truthy (reported_hash d) \<and> str_message acc = PNone")
    case True
    with m have "str_message acc' = reported_hash d" "sample_result acc' = sample_result acc @ [d]"
      by simp_all
    moreover from True have "str_message acc' \<noteq> PNone"
      using \<open>str_message acc' = reported_hash d\<close> py_truthy_not_None by metis
    ultimately show ?thesis using Cons.IH [OF r] True by simp
  next
    case False
    with m have "str_message acc' = str_message acc" "sample_result acc' = sample_result acc"
      by simp_all
    then show ?thesis using Cons.IH [OF r] False by auto
  qed
qed

lemma extract_all_shares:
  "\<forall>d\<in>set rs. \<exists>v. reported_nonce d = Inr v \<Longrightarrow> \<exists>ex. extract_all acc rs = Inr ex"
proof (induction rs arbitrary: acc)
  case Nil
  then show ?case by simp
next
  case (Cons d rs)
  then obtain v where v: "reported_nonce d = Inr v" by auto
  then obtain kvs where d: "d = PDict kvs"
    by (cases d) (auto simp: reported_nonce_def)
  from reported_collected [OF v] have "\<exists>acc'. extract_step acc d = Inr acc'"
    by (simp add: extract_step_def d Let_def)
  then obtain acc' where "extract_step acc d = Inr acc'" by blast
  moreover from Cons have "\<exists>ex. extract_all acc' rs = Inr ex" by simp
  ultimately show ?case by auto
qed

subsection \<open>The consistency loop and the status loop\<close>

lemma mark_malicious_shares:
  "\<forall>(k, d)\<in>set sigs. \<exists>v. reported_nonce d = Inr v \<Longrightarrow>
     mark_malicious code sigs r =
       Inr (map (\<lambda>(k, d). (k, if disagrees code d then flagged d else d)) sigs,
            if list_ex (\<lambda>(k, d). disagrees code d) sigs then ''FAILED'' else r)"
proof (induction sigs arbitrary: r)
  case Nil
  then show ?case by simp
next
  case (Cons kd sigs)
  obtain k d where kd: "kd = (k, d)" by (cases kd)
  from Cons.prems kd obtain v where v: "reported_nonce d = Inr v" by auto
  then obtain kvs where d: "d = PDict kvs" by (cases d) (auto simp: reported_nonce_def)
  from Cons.prems have rest: "\<forall>(k, d)\<in>set sigs. \<exists>v. reported_nonce d = Inr v" by simp
  show ?case
    unfolding kd using v by (simp add: Cons.IH [OF rest] disagrees_def flagged_def d)
qed

lemma status_check_malicious:
  "list_all (\<lambda>(k, d). has_status d) sigs \<Longrightarrow> list_ex (\<lambda>(k, d). is_malicious d) sigs \<Longrightarrow>
     status_check sigs r = Inr ''FAILED''"
proof (induction sigs)
  case Nil
  then show ?case by simp
next
  case (Cons kd sigs)
  obtain k d where kd: "kd = (k, d)" by (cases kd)
  from Cons.prems kd obtain st where st: "py_getitem d ''status'' = Inr st"
    by (auto simp: has_status_def split: sum.splits)
  show ?case
  proof (cases "st = PStr ''MALICIOUS''")
    case True
    with st show ?thesis by (simp add: kd)
  next
    case False
    with st Cons.prems kd have "list_ex (\<lambda>(k, d). is_malicious d) sigs"
      by (simp add: is_malicious_def)
    with Cons.IH Cons.prems have "status_check sigs r = Inr ''FAILED''" by simp
    with st False show ?thesis by (simp add: kd py_eq_PStr)
  qed
qed

lemma status_check_clean:
  "list_all (\<lambda>(k, d). has_status d \<and> \<not> is_malicious d) sigs \<Longrightarrow> status_check sigs r = Inr r"
proof (induction sigs)
  case Nil
  then show ?case by simp
next
  case (Cons kd sigs)
  obtain k d where kd: "kd = (k, d)" by (cases kd)
  from Cons.prems kd obtain st where st: "py_getitem d ''status'' = Inr st"
    and "st \<noteq> PStr ''MALICIOUS''"
    by (auto simp: has_status_def is_malicious_def split: sum.splits)
  with Cons show ?case
    by (simp add: kd py_eq_PStr)
qed

lemma flagged_is_malicious: "reported_nonce d = Inr v \<Longrightarrow> is_malicious (flagged d)"
  by (cases d) (auto simp: flagged_def is_malicious_def reported_nonce_def map_of_dict_set)

lemma flagged_has_status: "has_status d \<Longrightarrow> has_status (flagged d)"
  by (cases d) (auto simp: flagged_def has_status_def map_of_dict_set split: sum.splits)

subsection \<open>What each phase records\<close>

lemma consistency_check_events:
  assumes "consistency_check env dkg nl ex sigs s = (s', r)"
  shows "\<exists>evs. s' = s\<lparr>trace := trace s @ evs\<rparr> \<and> list_all is_recompute evs \<and>
           (\<forall>m a b. AggregateNonce m a b \<in> set evs \<longrightarrow> m = str_message ex)"
proof -
  let ?a = "AggregateNonce (str_message ex) nl (public_key dkg)"
  from assms have
    "s' = s \<or> s' = s\<lparr>trace := trace s @ [?a]\<rparr> \<or>
     (\<exists>pt. s' = s\<lparr>trace := trace s @ [?a, PubToCode pt]\<rparr>)"
    by (auto simp: consistency_check_def emit_def Let_def split: sum.splits if_splits)
  then consider "s' = s\<lparr>trace := trace s @ []\<rparr>" | "s' = s\<lparr>trace := trace s @ [?a]\<rparr>"
    | pt where "s' = s\<lparr>trace := trace s @ [?a, PubToCode pt]\<rparr>" by auto
  then show ?thesis
  proof cases
    case 1
    then show ?thesis by (intro exI [of _ "[]"]) simp
  next
    case 2
    then show ?thesis by (intro exI [of _ "[?a]"]) simp
  next
    case 3
    then show ?thesis by (intro exI [of _ "[?a, PubToCode pt]"]) simp
  qed
qed

lemma consistency_check_agreed:
  "py_set (aggregated_public_nonces ex) = Inr [v] \<Longrightarrow>
     consistency_check env dkg nl ex sigs s = (s, Inr (sigs, ''SUCCESSFUL''))"
  by (simp add: consistency_check_def)

lemma aggregate_and_verify_events:
  assumes "aggregate_and_verify env dkg rid ex s = (s', r)"
  shows "\<exists>evs. s' = s\<lparr>trace := trace s @ evs\<rparr> \<and> list_all is_aggregation evs \<and>
           (\<forall>m sg pt pk. AggregateSignatures m sg pt pk \<in> set evs \<longrightarrow> m = str_message ex)"
proof (cases "aggregated_public_nonces ex")
  case Nil
  with assms have "s' = s\<lparr>trace := trace s @ []\<rparr>" by (simp add: aggregate_and_verify_def)
  then show ?thesis by (intro exI [of _ "[]"]) simp
next
  case (Cons code others)
  let ?c = "CodeToPub code"
  show ?thesis
  proof (cases "code_to_pub env code")
    case (Inl f)
    with assms Cons have "s' = s\<lparr>trace := trace s @ [?c]\<rparr>"
      by (simp add: aggregate_and_verify_def emit_def)
    then show ?thesis by (intro exI [of _ "[?c]"]) simp
  next
    case (Inr pt)
    let ?a = "AggregateSignatures (str_message ex) (signs ex) pt (public_key dkg)"
    show ?thesis
    proof (cases "aggregate_signatures env (str_message ex) (signs ex) pt (public_key dkg)")
      case (Inl f)
      with assms Cons \<open>code_to_pub env code = Inr pt\<close> have "s' = s\<lparr>trace := trace s @ [?c, ?a]\<rparr>"
        by (simp add: aggregate_and_verify_def emit_def)
      then show ?thesis by (intro exI [of _ "[?c, ?a]"]) simp
    next
      case (Inr agg)
      with assms Cons \<open>code_to_pub env code = Inr pt\<close>
      have "s' = s\<lparr>trace := trace s @ [?c, ?a, VerifyGroupSignature agg]\<rparr>"
        by (auto simp: aggregate_and_verify_def emit_def Let_def split: sum.splits if_splits)
      then show ?thesis by (intro exI [of _ "[?c, ?a, VerifyGroupSignature agg]"]) simp
    qed
  qed
qed

lemma collect_signatures_events:
  assumes "collect_signatures env self dkg nl data ids s = (s', r)"
  shows "\<exists>evs. trace s' = trace s @ Uuid4 (uuid4 env (uuids s)) # evs \<and>
           uuids s' = Suc (uuids s) \<and> list_all is_transport evs \<and>
           (\<forall>u d t. Post u d t \<in> set evs \<longrightarrow>
              d = sign_payload (uuid4 env (uuids s)) dkg nl data)"
proof -
  let ?rid = "uuid4 env (uuids s)"
  let ?s0 = "(emit (Uuid4 ?rid) s)\<lparr>uuids := Suc (uuids s)\<rparr>"
  obtain s1 r1 where f: "fan_out env self ''/v1/sign'' (sign_payload ?rid dkg nl data) ids ?s0 = (s1, r1)"
    by (cases "fan_out env self ''/v1/sign'' (sign_payload ?rid dkg nl data) ids ?s0")
  with assms have "s' = s1"
    by (auto simp: collect_signatures_def Let_def split: sum.splits)
  with fan_out_events [OF f] show ?thesis by (auto simp: emit_def)
qed

lemma collect_signatures_Inr:
  assumes "collect_signatures env self dkg nl data ids s = (s', Inr (rid, sigs))"
  shows "rid = uuid4 env (uuids s) \<and>
         (\<exists>rs. length rs = length ids \<and> sigs = dict_zip ids rs \<and>
            trace s' = trace s @ Uuid4 rid # map Lookup ids @
              map (\<lambda>i. Post (node_url (projr (nodes_info self i)) ''/v1/sign'')
                          (sign_payload rid dkg nl data) (default_timeout self)) ids)"
proof -
  let ?rid = "uuid4 env (uuids s)"
  let ?s0 = "(emit (Uuid4 ?rid) s)\<lparr>uuids := Suc (uuids s)\<rparr>"
  from assms have rid: "rid = ?rid"
    and f: "fan_out env self ''/v1/sign'' (sign_payload ?rid dkg nl data) ids ?s0 = (s', Inr sigs)"
    by (auto simp: collect_signatures_def Let_def split: sum.splits prod.splits)
  from fan_out_Inr [OF f] rid show ?thesis by (auto simp: emit_def)
qed

subsection \<open>The whole call, by phases\<close>

lemma request_signature_phases:
  assumes "set sign_party \<subseteq> set (party dkg)"
      and "collect_signatures env self dkg nl data sign_party s = (s1, Inr (rid, signatures))"
      and "extract_all no_extraction (map snd signatures) = Inr ex"
  shows "request_signature env self dkg nl data sign_party s =
           conclude env dkg nl rid signatures ex s1"
  using assms by (simp add: request_signature_def)

lemma transport_not_recompute: "is_transport e \<Longrightarrow> \<not> is_recompute e"
  by (cases e) auto

lemma transport_not_aggregation: "is_transport e \<Longrightarrow> \<not> is_aggregation e"
  by (cases e) auto

lemma aggregation_not_recompute: "is_aggregation e \<Longrightarrow> \<not> is_recompute e"
  by (cases e) auto

lemma recompute_not_aggregation: "is_recompute e \<Longrightarrow> \<not> is_aggregation e"
  by (cases e) auto

lemma conclude_events:
  assumes "conclude env dkg nl rid sigs ex s = (s', r)"
  shows "\<exists>evs. trace s' = trace s @ evs \<and> uuids s' = uuids s \<and>
           list_all (\<lambda>e. is_recompute e \<or> is_aggregation e) evs \<and>
           (\<forall>m a b. AggregateNonce m a b \<in> set evs \<longrightarrow> m = str_message ex) \<and>
           (\<forall>m sg pt pk. AggregateSignatures m sg pt pk \<in> set evs \<longrightarrow> m = str_message ex)"
proof -
  obtain s2 c where c: "consistency_check env dkg nl ex sigs s = (s2, c)"
    by (cases "consistency_check env dkg nl ex sigs s")
  from consistency_check_events [OF c] obtain evs1 where
    e1: "s2 = s\<lparr>trace := trace s @ evs1\<rparr>" "list_all is_recompute evs1"
        "\<forall>m a b. AggregateNonce m a b \<in> set evs1 \<longrightarrow> m = str_message ex" by blast
  have r1: "\<forall>m sg pt pk. AggregateSignatures m sg pt pk \<notin> set evs1"
    using e1(2) by (auto simp: list_all_iff)
  show ?thesis
  proof (cases "s' = s2")
    case True
    with e1 r1 show ?thesis
      by (intro exI [of _ evs1]) (auto simp: list_all_iff)
  next
    case False
    with assms c have a: "aggregate_and_verify env dkg rid ex s2 = (s', r)"
      by (auto simp: conclude_def split: sum.splits prod.splits if_splits)
    from aggregate_and_verify_events [OF a] obtain evs2 where
      e2: "s' = s2\<lparr>trace := trace s2 @ evs2\<rparr>" "list_all is_aggregation evs2"
          "\<forall>m sg pt pk. AggregateSignatures m sg pt pk \<in> set evs2 \<longrightarrow> m = str_message ex" by blast
    have r2: "\<forall>m a b. AggregateNonce m a b \<notin> set evs2"
      using e2(2) by (auto simp: list_all_iff)
    from e1 e2 r1 r2 show ?thesis
      by (intro exI [of _ "evs1 @ evs2"]) (auto simp: list_all_iff)
  qed
qed

subsection \<open>The request id\<close>

lemma fan_out_known_state:
  assumes "\<forall>i\<in>set ids. \<exists>n. nodes_info self i = Inr n"
  shows "fst (fan_out env self cm rd ids s) =
           s\<lparr>trace := trace s @ map Lookup ids @
                  map (\<lambda>i. Post (node_url (projr (nodes_info self i)) cm) rd (default_timeout self)) ids,
              posts := posts s + length ids\<rparr>"
proof -
  let ?urls = "map (\<lambda>n. node_url n cm) (map (\<lambda>i. projr (nodes_info self i)) ids)"
  let ?s1 = "s\<lparr>trace := trace s @ map Lookup ids\<rparr>"
  have "fst (fan_out env self cm rd ids s) = fst (gather env ?urls rd (default_timeout self) ?s1)"
    by (simp add: fan_out_def lookup_all_known [OF assms] split: prod.splits sum.splits)
  then show ?thesis by (simp add: gather_state comp_def)
qed

lemma collect_signatures_known:
  assumes "\<forall>i\<in>set ids. \<exists>n. nodes_info self i = Inr n"
  shows "trace (fst (collect_signatures env self dkg nl data ids s)) =
           trace s @ Uuid4 (uuid4 env (uuids s)) # map Lookup ids @
             map (\<lambda>i. Post (node_url (projr (nodes_info self i)) ''/v1/sign'')
                         (sign_payload (uuid4 env (uuids s)) dkg nl data) (default_timeout self)) ids"
proof -
  let ?rid = "uuid4 env (uuids s)"
  let ?s0 = "(emit (Uuid4 ?rid) s)\<lparr>uuids := Suc (uuids s)\<rparr>"
  have "fst (collect_signatures env self dkg nl data ids s) =
          fst (fan_out env self ''/v1/sign'' (sign_payload ?rid dkg nl data) ids ?s0)"
    by (simp add: collect_signatures_def Let_def split: prod.splits sum.splits)
  then show ?thesis by (simp add: fan_out_known_state [OF assms] emit_def)
qed

lemma py_setitem_Inr:
  "py_setitem d k v = Inr d' \<Longrightarrow> \<exists>kvs. d = PDict kvs \<and> d' = PDict (dict_set kvs k v)"
  by (cases d) auto

lemma aggregate_and_verify_success:
  assumes "aggregate_and_verify env dkg rid ex s = (s', Inr res)"
      and "py_getitem res ''result'' = Inr (PStr ''SUCCESSFUL'')"
  shows "py_getitem res ''request_id'' = Inr (PStr rid)"
proof -
  from assms(1) consider
      (failed) agg where "py_setitem agg ''result'' (PStr ''FAILED'') = Inr res"
    | (verified) agg where "shape_success agg (sample_result ex) rid = Inr res"
    by (auto simp: aggregate_and_verify_def Let_def split: list.splits sum.splits if_splits)
  then show ?thesis
  proof cases
    case failed
    from py_setitem_Inr [OF failed] assms(2) show ?thesis
      by (auto simp: map_of_dict_set)
  next
    case verified
    then obtain a3 where "py_setitem a3 ''request_id'' (PStr rid) = Inr res"
      by (auto simp: shape_success_def split: sum.splits)
    from py_setitem_Inr [OF this] show ?thesis
      by (auto simp: map_of_dict_set)
  qed
qed

lemma conclude_success:
  assumes "conclude env dkg nl rid sigs ex s = (s', Inr res)"
      and "py_getitem res ''result'' = Inr (PStr ''SUCCESSFUL'')"
  shows "py_getitem res ''request_id'' = Inr (PStr rid)"
proof -
  from assms consider
      (failed) sigs' where "res = PDict [(''result'', PStr ''FAILED''), (''signatures'', PDict sigs')]"
    | (aggregated) s2 where "aggregate_and_verify env dkg rid ex s2 = (s', Inr res)"
    by (auto simp: conclude_def split: prod.splits sum.splits if_splits)
  then show ?thesis
  proof cases
    case failed
    with assms(2) show ?thesis by simp
  next
    case aggregated
    from aggregate_and_verify_success [OF this assms(2)] show ?thesis .
  qed
qed

lemma request_signature_request_id:
  assumes auth: "set sign_party \<subseteq> set (party dkg)"
      and run: "request_signature env self dkg nl data sign_party s = (s', r)"
  shows "\<exists>evs. trace s' = trace s @ Uuid4 (uuid4 env (uuids s)) # evs
           \<and> uuids s' = Suc (uuids s)
           \<and> (\<forall>x. Uuid4 x \<notin> set evs)
           \<and> (\<forall>u d t. Post u d t \<in> set evs \<longrightarrow>
                  d = sign_payload (uuid4 env (uuids s)) dkg nl data)
           \<and> ((\<forall>i\<in>set sign_party. \<exists>n. nodes_info self i = Inr n) \<longrightarrow>
                (\<forall>i\<in>set sign_party.
                   Post (node_url (projr (nodes_info self i)) ''/v1/sign'')
                        (sign_payload (uuid4 env (uuids s)) dkg nl data)
                        (default_timeout self) \<in> set evs))
           \<and> (\<forall>res. r = Inr res \<and> py_getitem res ''result'' = Inr (PStr ''SUCCESSFUL'') \<longrightarrow>
                  py_getitem res ''request_id'' = Inr (PStr (uuid4 env (uuids s))))"
proof -
  let ?rid = "uuid4 env (uuids s)"
  let ?payload = "sign_payload ?rid dkg nl data"
  obtain s1 c where c: "collect_signatures env self dkg nl data sign_party s = (s1, c)"
    by (cases "collect_signatures env self dkg nl data sign_party s")
  from collect_signatures_events [OF c] obtain evs1 where
    e1: "trace s1 = trace s @ Uuid4 ?rid # evs1" "uuids s1 = Suc (uuids s)"
        "list_all is_transport evs1" "\<forall>u d t. Post u d t \<in> set evs1 \<longrightarrow> d = ?payload"
    by blast
  have t1: "\<forall>x. Uuid4 x \<notin> set evs1" using e1(3) by (auto simp: list_all_iff)
  have known: "(\<forall>i\<in>set sign_party. \<exists>n. nodes_info self i = Inr n) \<longrightarrow>
                (\<forall>i\<in>set sign_party.
                   Post (node_url (projr (nodes_info self i)) ''/v1/sign'') ?payload
                        (default_timeout self) \<in> set evs1)"
  proof
    assume k: "\<forall>i\<in>set sign_party. \<exists>n. nodes_info self i = Inr n"
    from collect_signatures_known [OF k, of env dkg nl data s] c e1(1)
    have "evs1 = map Lookup sign_party @
             map (\<lambda>i. Post (node_url (projr (nodes_info self i)) ''/v1/sign'') ?payload
                         (default_timeout self)) sign_party"
      by simp
    then show "\<forall>i\<in>set sign_party.
                   Post (node_url (projr (nodes_info self i)) ''/v1/sign'') ?payload
                        (default_timeout self) \<in> set evs1"
      by auto
  qed
  show ?thesis
  proof (cases "\<exists>sigs ex. c = Inr (?rid, sigs) \<and> extract_all no_extraction (map snd sigs) = Inr ex")
    case False
    with run auth c have "s' = s1" "\<forall>res. r \<noteq> Inr res"
      by (auto simp: request_signature_def split: sum.splits prod.splits
               dest: collect_signatures_Inr)
    with e1 t1 known show ?thesis
      by (intro exI [of _ evs1]) simp
  next
    case True
    then obtain sigs ex where cs: "c = Inr (?rid, sigs)"
      and ex: "extract_all no_extraction (map snd sigs) = Inr ex" by blast
    from run have con: "conclude env dkg nl ?rid sigs ex s1 = (s', r)"
      by (simp add: request_signature_phases [OF auth c [unfolded cs] ex])
    from conclude_events [OF con] obtain evs2 where
      e2: "trace s' = trace s1 @ evs2" "uuids s' = uuids s1"
          "list_all (\<lambda>e. is_recompute e \<or> is_aggregation e) evs2" by blast
    have t2: "\<forall>x. Uuid4 x \<notin> set evs2" "\<forall>u d t. Post u d t \<notin> set evs2"
      using e2(3) by (auto simp: list_all_iff)
    have res: "\<forall>res. r = Inr res \<and> py_getitem res ''result'' = Inr (PStr ''SUCCESSFUL'') \<longrightarrow>
                  py_getitem res ''request_id'' = Inr (PStr ?rid)"
      using con by (auto dest: conclude_success)
    from e1 e2 t1 t2 known res show ?thesis
      by (intro exI [of _ "evs1 @ evs2"]) auto
  qed
qed

section \<open>The transport\<close>

text \<open>
  C1 at two failing inputs: a peer that refuses the connection, and a peer that sends no
  response line within the timeout. In both \<^verbatim>\<open>session.post\<close> itself raises. The \<^verbatim>\<open>try\<close> of
  line 14 stands inside \<^verbatim>\<open>async with session.post(...) as response\<close>, so neither \<^verbatim>\<open>except\<close>
  clause (lines 16 and 21) is reached, and \<^verbatim>\<open>post_request\<close> raises to its caller where the
  specification has it return the \<^verbatim>\<open>ERROR\<close> or the \<^verbatim>\<open>TIMEOUT\<close> sentinel.
\<close>

theorem post_request_raises_on_refused_connection:
  "snd (post_request (example_env net_refused (PBool True)) ''http://node1:5000/v1/sign''
          (PDict []) 200 idle) =
     Inl (External (Exception ''ClientConnectorError'' ''Cannot connect to host''))
   \<and> snd (post_request (example_env net_silent (PBool True)) ''http://node1:5000/v1/sign''
            (PDict []) 200 idle) =
       Inl (External (TimeoutError ''TimeoutError'' []))"
  by (simp add: post_request_def example_env_def net_refused_def net_silent_def)

text \<open>
  What the \<^verbatim>\<open>except\<close> clauses do reach is a failure of \<^verbatim>\<open>response.json()\<close>: once
  \<^verbatim>\<open>session.post\<close> has yielded a response object, \<^verbatim>\<open>post_request\<close> returns the decoded body,
  the \<^verbatim>\<open>TIMEOUT\<close> sentinel when decoding times out, and the \<^verbatim>\<open>ERROR\<close> sentinel when decoding
  raises any other exception. The error text starts with \<^verbatim>\<open>An exception occurred:\<close>.
\<close>

lemma post_request_converts_decoding_failures:
  assumes "session_post env (posts s) url data timeout = Inr r"
  shows "snd (post_request env url data timeout s) =
           Inr (case r of
                  Inr body \<Rightarrow> body
                | Inl (TimeoutError name msg) \<Rightarrow>
                    PDict [(''status'', PStr ''TIMEOUT''),
                           (''error'', PStr ''Communication timed out'')]
                | Inl (Exception name msg) \<Rightarrow>
                    PDict [(''status'', PStr ''ERROR''),
                           (''error'', PStr (''An exception occurred: '' @ name @ '': '' @ msg))])"
  using assms
  by (simp add: post_request_def timeout_sentinel_def error_sentinel_def
           split: sum.splits failure.splits)

lemma post_request_decoding_examples:
  "snd (post_request (example_env net_slow (PBool True)) ''http://node1:5000/v1/sign''
          (PDict []) 200 idle) =
     Inr (PDict [(''status'', PStr ''TIMEOUT''), (''error'', PStr ''Communication timed out'')])
   \<and> snd (post_request (example_env net_garbled (PBool True)) ''http://node1:5000/v1/sign''
            (PDict []) 200 idle) =
       Inr (PDict [(''status'', PStr ''ERROR''),
                   (''error'',
                    PStr ''An exception occurred: ContentTypeError: unexpected mimetype'')])"
  by (simp add: post_request_def example_env_def net_slow_def net_garbled_def
                timeout_sentinel_def error_sentinel_def)

section \<open>The authorization guard\<close>

text \<open>
  C3: when \<^verbatim>\<open>sign_party\<close> is not a subset of \<^verbatim>\<open>dkg_key['party']\<close>, \<^verbatim>\<open>request_signature\<close>
  returns exactly \<^verbatim>\<open>{result: FAILED, signatures: None}\<close> and leaves the state as it found it:
  no lookup, no request, no other call is recorded.
\<close>

theorem request_signature_unauthorized:
  assumes "\<not> set sign_party \<subseteq> set (party dkg)"
  shows "request_signature env self dkg nonces_list sa_data sign_party s =
           (s, Inr (PDict [(''result'', PStr ''FAILED''), (''signatures'', PNone)]))"
  using assms by (simp add: request_signature_def guard_failed_def)

theorem request_signature_unauthorized_witness:
  "\<not> set [''1'', ''4''] \<subseteq> set (party example_dkg)
   \<and> request_signature (example_env net_honest (PBool True)) example_sa example_dkg
        (PDict []) (PDict []) [''1'', ''4''] idle =
       (idle, Inr (PDict [(''result'', PStr ''FAILED''), (''signatures'', PNone)]))"
  using request_signature_unauthorized
          [of "[''1'', ''4'']" example_dkg "example_env net_honest (PBool True)" example_sa
              "PDict []" "PDict []" idle]
  by (simp add: example_dkg_def)

section \<open>Sentinel responses in the consistency check\<close>

text \<open>
  C2 at a failing input: one authorized signer whose body does not arrive in time. The
  transport hands the coordinator its \<^verbatim>\<open>TIMEOUT\<close> sentinel; no nonce was collected, so the
  coordinator recomputes the nonce and reads \<^verbatim>\<open>data['signature_data']\<close> of the sentinel at
  line 105, which raises \<^verbatim>\<open>KeyError\<close> past \<^verbatim>\<open>request_signature\<close>.
\<close>

theorem request_signature_raises_on_timeout_sentinel:
  "snd (request_signature (example_env net_slow (PBool True)) example_sa example_dkg
          (PDict []) (PDict []) [''1''] idle) = Inl (KeyError ''signature_data'')"
  by (simp add: run_defs example_defs net_slow_def)

section \<open>Nonce collection\<close>

text \<open>
  C4 at a failing input: a party of two nodes the directory knows, the second refusing the
  connection. Both requests are issued; the exception of the second leaves \<^verbatim>\<open>post_request\<close>
  (the defect of C1), \<^verbatim>\<open>asyncio.gather\<close> raises it at line 44, and \<^verbatim>\<open>request_nonces\<close> raises:
  no mapping is returned, where the specification has one entry per id.
\<close>

theorem request_nonces_raises_on_refused_connection:
  "request_nonces (example_env net_second_refused (PBool True)) example_sa [''1'', ''2''] 10 idle =
     (\<lparr>trace = [Lookup ''1'', Lookup ''2'',
                Post ''http://node1:5000/v1/generate-nonces''
                  (PDict [(''number_of_nonces'', PInt 10)]) 200,
                Post ''http://node2:5000/v1/generate-nonces''
                  (PDict [(''number_of_nonces'', PInt 10)]) 200],
       posts = 2, uuids = 0\<rparr>,
      Inl (External (Exception ''ClientConnectorError'' ''Cannot connect to host'')))"
  by (simp add: run_defs example_defs net_second_refused_def)

text \<open>
  When the directory knows every id of the party and every request gets a response object,
  \<^verbatim>\<open>request_nonces\<close> returns a mapping with exactly one entry per id of the party, in the
  order in which the ids first occur in the party (the party itself when no id is repeated),
  and it has issued one lookup and one nonce-generation request per member, each request
  with the body \<^verbatim>\<open>{number_of_nonces}\<close> and the default timeout.
\<close>

lemma request_nonces_one_entry_per_member:
  assumes "\<forall>i\<in>set ids. \<exists>n. nodes_info self i = Inr n"
      and "\<forall>k url d t. \<exists>r. session_post env k url d t = Inr r"
  shows "\<exists>s' d rs. request_nonces env self ids number_of_nonces s = (s', Inr d)
           \<and> length rs = length ids \<and> d = dict_zip ids rs
           \<and> distinct (map fst d) \<and> set (map fst d) = set ids
           \<and> map fst d = rev (remdups (rev ids))
           \<and> (distinct ids \<longrightarrow> d = zip ids rs)
           \<and> trace s' = trace s @ map Lookup ids @
                map (\<lambda>i. Post (node_url (projr (nodes_info self i)) ''/v1/generate-nonces'')
                            (PDict [(''number_of_nonces'', PInt number_of_nonces)])
                            (default_timeout self)) ids"
proof -
  from fan_out_known_responsive [OF assms] obtain s' d where
    f: "fan_out env self ''/v1/generate-nonces''
          (PDict [(''number_of_nonces'', PInt number_of_nonces)]) ids s = (s', Inr d)" by blast
  from fan_out_Inr [OF f] obtain rs where rs: "length rs = length ids" "d = dict_zip ids rs"
    and s': "s' = s\<lparr>trace := trace s @ map Lookup ids @
                       map (\<lambda>i. Post (node_url (projr (nodes_info self i)) ''/v1/generate-nonces'')
                                 (PDict [(''number_of_nonces'', PInt number_of_nonces)])
                                 (default_timeout self)) ids,
                   posts := posts s + length ids\<rparr>" by blast
  have keys: "map fst d = rev (remdups (rev ids))" using rs by (simp add: dict_zip_keys)
  have "distinct (map fst d)" "set (map fst d) = set ids" by (simp_all add: keys)
  moreover have "distinct ids \<longrightarrow> d = zip ids rs" using rs by (simp add: dict_zip_distinct)
  moreover have "request_nonces env self ids number_of_nonces s = (s', Inr d)"
    by (simp add: request_nonces_def f)
  ultimately show ?thesis using rs keys s' by auto
qed

lemma request_nonces_one_entry_per_member_example:
  "\<exists>s' rs. request_nonces (example_env net_honest (PBool True)) example_sa [''1'', ''2''] 10 idle =
              (s', Inr (zip [''1'', ''2''] rs))
         \<and> length rs = 2
         \<and> trace s' =
             [Lookup ''1'', Lookup ''2'',
              Post ''http://node1:5000/v1/generate-nonces''
                (PDict [(''number_of_nonces'', PInt 10)]) 200,
              Post ''http://node2:5000/v1/generate-nonces''
                (PDict [(''number_of_nonces'', PInt 10)]) 200]"
proof -
  have known: "\<forall>i\<in>set [''1'', ''2'']. \<exists>n. nodes_info example_sa i = Inr n"
    by (simp add: example_sa_def)
  have responsive:
    "\<forall>k url d t. \<exists>r. session_post (example_env net_honest (PBool True)) k url d t = Inr r"
    by (simp add: example_env_def net_honest_def)
  from request_nonces_one_entry_per_member [OF known responsive, of 10 idle]
  obtain s' d rs where
    run: "request_nonces (example_env net_honest (PBool True)) example_sa [''1'', ''2''] 10 idle
            = (s', Inr d)"
    and len: "length rs = length [''1'', ''2'']"
    and d: "distinct [''1'', ''2''] \<longrightarrow> d = zip [''1'', ''2''] rs"
    and tr: "trace s' = trace idle @ map Lookup [''1'', ''2''] @
                map (\<lambda>i. Post (node_url (projr (nodes_info example_sa i)) ''/v1/generate-nonces'')
                            (PDict [(''number_of_nonces'', PInt 10)])
                            (default_timeout example_sa)) [''1'', ''2'']"
    by blast
  have d': "d = zip [''1'', ''2''] rs" using d by simp
  have tr': "trace s' =
             [Lookup ''1'', Lookup ''2'',
              Post ''http://node1:5000/v1/generate-nonces''
                (PDict [(''number_of_nonces'', PInt 10)]) 200,
              Post ''http://node2:5000/v1/generate-nonces''
                (PDict [(''number_of_nonces'', PInt 10)]) 200]"
    using tr by (simp add: example_sa_def idle_def node_url_def)
  from run len d' tr' show ?thesis by (intro exI [of _ s'] exI [of _ rs]) simp
qed

section \<open>An agreed nonce is taken as it is\<close>

text \<open>
  C10: when the set of the collected non-empty \<^verbatim>\<open>aggregated_public_nonce\<close> values has exactly
  one member, the consistency check calls nothing and returns every response as it was,
  with \<^verbatim>\<open>result\<close> still \<^verbatim>\<open>SUCCESSFUL\<close>; the call goes on to the status loop on the unchanged
  responses and then to aggregation with the agreed nonce; and the whole call records neither
  \<^verbatim>\<open>aggregate_nonce\<close> nor \<^verbatim>\<open>pub_to_code\<close>. A nonce that all signers agree on is therefore never
  compared with the recomputed one.
\<close>

theorem agreed_nonce_is_not_recomputed:
  assumes auth: "set sign_party \<subseteq> set (party dkg)"
      and collected:
        "collect_signatures env self dkg nl data sign_party s = (s1, Inr (rid, signatures))"
      and extracted: "extract_all no_extraction (map snd signatures) = Inr ex"
      and agreed: "py_set (aggregated_public_nonces ex) = Inr [v]"
  shows "consistency_check env dkg nl ex signatures s1 = (s1, Inr (signatures, ''SUCCESSFUL''))
       \<and> request_signature env self dkg nl data sign_party s =
           (case status_check signatures ''SUCCESSFUL'' of
              Inl e \<Rightarrow> (s1, Inl e)
            | Inr result \<Rightarrow>
                if result = ''FAILED''
                then (s1, Inr (PDict [(''result'', PStr ''FAILED''),
                                      (''signatures'', PDict signatures)]))
                else aggregate_and_verify env dkg rid ex s1)
       \<and> (\<exists>evs. trace (fst (request_signature env self dkg nl data sign_party s)) = trace s @ evs
                \<and> \<not> list_ex is_recompute evs)"
proof -
  note cc = consistency_check_agreed [OF agreed, of env dkg nl signatures s1]
  have run: "request_signature env self dkg nl data sign_party s =
           (case status_check signatures ''SUCCESSFUL'' of
              Inl e \<Rightarrow> (s1, Inl e)
            | Inr result \<Rightarrow>
                if result = ''FAILED''
                then (s1, Inr (PDict [(''result'', PStr ''FAILED''),
                                      (''signatures'', PDict signatures)]))
                else aggregate_and_verify env dkg rid ex s1)"
    by (simp add: request_signature_phases [OF auth collected extracted] conclude_def cc)
  from collect_signatures_events [OF collected] obtain evs1 where
    e1: "trace s1 = trace s @ Uuid4 (uuid4 env (uuids s)) # evs1" "list_all is_transport evs1"
    by blast
  let ?final = "fst (request_signature env self dkg nl data sign_party s)"
  have "\<exists>evs. trace ?final = trace s @ evs \<and> \<not> list_ex is_recompute evs"
  proof (cases "?final = s1")
    case True
    with e1 show ?thesis
      by (intro exI [of _ "Uuid4 (uuid4 env (uuids s)) # evs1"])
         (auto simp: list_all_iff list_ex_iff dest: transport_not_recompute)
  next
    case False
    obtain s' r where a: "aggregate_and_verify env dkg rid ex s1 = (s', r)"
      by (cases "aggregate_and_verify env dkg rid ex s1")
    with False run have f: "?final = s'"
      by (auto split: sum.splits if_splits)
    from aggregate_and_verify_events [OF a] obtain evs2 where
      e2: "s' = s1\<lparr>trace := trace s1 @ evs2\<rparr>" "list_all is_aggregation evs2" by blast
    with e1 f show ?thesis
      by (intro exI [of _ "Uuid4 (uuid4 env (uuids s)) # evs1 @ evs2"])
         (auto simp: list_all_iff list_ex_iff
               dest: transport_not_recompute aggregation_not_recompute)
  qed
  with cc run show ?thesis by blast
qed

theorem agreed_nonce_is_not_recomputed_witness:
  "py_set (aggregated_public_nonces (share_extraction (peer_share ''msg'' (PInt 8) ''SUCCESSFUL'')))
     = Inr [PInt 8]
   \<and> consistency_check (example_env net_all_forged (PBool False)) example_dkg (PDict [])
        (share_extraction (peer_share ''msg'' (PInt 8) ''SUCCESSFUL''))
        [(''1'', peer_share ''msg'' (PInt 8) ''SUCCESSFUL'')] (collected_state [''1'']) =
       (collected_state [''1''],
        Inr ([(''1'', peer_share ''msg'' (PInt 8) ''SUCCESSFUL'')], ''SUCCESSFUL''))
   \<and> snd (request_signature (example_env net_all_forged (PBool False)) example_sa example_dkg
            (PDict []) (PDict []) [''1''] idle) =
       Inr (PDict [(''signature'', PInt 99), (''message_hash'', PBytes [0xAB, 0x01]),
                   (''result'', PStr ''FAILED'')])"
proof -
  let ?env = "example_env net_all_forged (PBool False)"
  let ?share = "peer_share ''msg'' (PInt 8) ''SUCCESSFUL''"
  have auth: "set [''1''] \<subseteq> set (party example_dkg)"
    by (simp add: example_dkg_def)
  have collected:
    "collect_signatures ?env example_sa example_dkg (PDict []) (PDict []) [''1''] idle =
       (collected_state [''1''], Inr (''u'', [(''1'', ?share)]))"
    by (simp add: run_defs example_defs net_all_forged_def)
  have extracted:
    "extract_all no_extraction (map snd [(''1'', ?share)]) = Inr (share_extraction ?share)"
    by (simp add: run_defs example_defs)
  have agreed: "py_set (aggregated_public_nonces (share_extraction ?share)) = Inr [PInt 8]"
    by (simp add: run_defs example_defs)
  from agreed_nonce_is_not_recomputed [OF auth collected extracted agreed] agreed
  show ?thesis
    by (simp add: run_defs example_defs)
qed

section \<open>A malicious peer fails the ceremony\<close>

text \<open>
  C6 at a failing input: three authorized signers, of which the first answers with the nonce
  code 7, the second reports itself \<^verbatim>\<open>MALICIOUS\<close> with the code 8, and the third's body does
  not arrive in time. A collected response carries the status \<^verbatim>\<open>MALICIOUS\<close>; the two
  collected nonces differ, so the nonce is recomputed, and line 105 subscripts the third
  response, the \<^verbatim>\<open>TIMEOUT\<close> sentinel: \<^verbatim>\<open>KeyError\<close> leaves \<^verbatim>\<open>request_signature\<close>, where the
  specification has \<^verbatim>\<open>{result: FAILED, signatures: <all responses>}\<close>. The defect is that of C2.
\<close>

theorem request_signature_raises_with_malicious_peer:
  "is_malicious (peer_share ''msg'' (PInt 8) ''MALICIOUS'')
   \<and> snd (collect_signatures (example_env net_confession_then_slow (PBool True)) example_sa
            example_dkg (PDict []) (PDict []) [''1'', ''2'', ''3''] idle) =
       Inr (''u'', [(''1'', peer_share ''msg'' (PInt 7) ''SUCCESSFUL''),
                    (''2'', peer_share ''msg'' (PInt 8) ''MALICIOUS''),
                    (''3'', PDict [(''status'', PStr ''TIMEOUT''),
                                   (''error'', PStr ''Communication timed out'')])])
   \<and> snd (request_signature (example_env net_confession_then_slow (PBool True)) example_sa
            example_dkg (PDict []) (PDict []) [''1'', ''2'', ''3''] idle) =
       Inl (KeyError ''signature_data'')"
  by (simp add: run_defs example_defs net_confession_then_slow_def)

text \<open>
  Past the consistency check the property holds: when the check has returned and at least one
  of the responses it leaves carries the status \<^verbatim>\<open>MALICIOUS\<close> (reported by the peer itself or
  set at line 106), every response carrying a status, \<^verbatim>\<open>request_signature\<close> returns
  \<^verbatim>\<open>{result: FAILED, signatures: <all responses>}\<close> and the call has recorded no
  \<^verbatim>\<open>code_to_pub\<close>, \<^verbatim>\<open>aggregate_signatures\<close> or \<^verbatim>\<open>verify_group_signature\<close>.
\<close>

lemma malicious_peer_fails_ceremony:
  assumes auth: "set sign_party \<subseteq> set (party dkg)"
      and collected:
        "collect_signatures env self dkg nl data sign_party s = (s1, Inr (rid, signatures))"
      and extracted: "extract_all no_extraction (map snd signatures) = Inr ex"
      and checked:
        "consistency_check env dkg nl ex signatures s1 = (s2, Inr (signatures', result))"
      and status: "list_all (\<lambda>(k, d). has_status d) signatures'"
      and malicious: "list_ex (\<lambda>(k, d). is_malicious d) signatures'"
  shows "request_signature env self dkg nl data sign_party s =
           (s2, Inr (PDict [(''result'', PStr ''FAILED''), (''signatures'', PDict signatures')]))
       \<and> (\<exists>evs. trace s2 = trace s @ evs \<and> \<not> list_ex is_aggregation evs)"
proof -
  have "request_signature env self dkg nl data sign_party s =
           (s2, Inr (PDict [(''result'', PStr ''FAILED''), (''signatures'', PDict signatures')]))"
    by (simp add: request_signature_phases [OF auth collected extracted] conclude_def checked
          status_check_malicious [OF status malicious])
  moreover from collect_signatures_events [OF collected] obtain evs1 where
    e1: "trace s1 = trace s @ Uuid4 (uuid4 env (uuids s)) # evs1" "list_all is_transport evs1"
    by blast
  from consistency_check_events [OF checked] obtain evs2 where
    e2: "s2 = s1\<lparr>trace := trace s1 @ evs2\<rparr>" "list_all is_recompute evs2" by blast
  from e1 e2 have "trace s2 = trace s @ (Uuid4 (uuid4 env (uuids s)) # evs1 @ evs2)
      \<and> \<not> list_ex is_aggregation (Uuid4 (uuid4 env (uuids s)) # evs1 @ evs2)"
    by (auto simp: list_all_iff list_ex_iff
             dest: transport_not_aggregation recompute_not_aggregation)
  ultimately show ?thesis by blast
qed

lemma malicious_peer_fails_ceremony_example:
  "list_ex (\<lambda>(k, d). is_malicious d)
     [(''1'', peer_share ''msg'' (PInt 7) ''SUCCESSFUL''),
      (''2'', peer_share ''msg'' (PInt 7) ''MALICIOUS''),
      (''3'', peer_share ''msg'' (PInt 7) ''SUCCESSFUL'')]
   \<and> request_signature (example_env net_confessing (PBool True)) example_sa example_dkg
        (PDict []) (PDict []) [''1'', ''2'', ''3''] idle =
       (collected_state [''1'', ''2'', ''3''],
        Inr (PDict [(''result'', PStr ''FAILED''),
                    (''signatures'',
                     PDict [(''1'', peer_share ''msg'' (PInt 7) ''SUCCESSFUL''),
                            (''2'', peer_share ''msg'' (PInt 7) ''MALICIOUS''),
                            (''3'', peer_share ''msg'' (PInt 7) ''SUCCESSFUL'')])]))"
proof -
  let ?env = "example_env net_confessing (PBool True)"
  let ?sigs = "[(''1'', peer_share ''msg'' (PInt 7) ''SUCCESSFUL''),
                (''2'', peer_share ''msg'' (PInt 7) ''MALICIOUS''),
                (''3'', peer_share ''msg'' (PInt 7) ''SUCCESSFUL'')]"
  obtain ex where extracted: "extract_all no_extraction (map snd ?sigs) = Inr ex"
    and nonces: "aggregated_public_nonces ex = [PInt 7, PInt 7, PInt 7]"
    by (simp add: run_defs example_defs)
  have auth: "set [''1'', ''2'', ''3''] \<subseteq> set (party example_dkg)"
    by (simp add: example_dkg_def)
  have collected:
    "collect_signatures ?env example_sa example_dkg (PDict []) (PDict []) [''1'', ''2'', ''3''] idle =
       (collected_state [''1'', ''2'', ''3''], Inr (''u'', ?sigs))"
    by (simp add: run_defs example_defs net_confessing_def)
  have checked:
    "consistency_check ?env example_dkg (PDict []) ex ?sigs (collected_state [''1'', ''2'', ''3'']) =
       (collected_state [''1'', ''2'', ''3''], Inr (?sigs, ''SUCCESSFUL''))"
    by (simp add: consistency_check_def nonces py_set_def py_set_add_def)
  have status: "list_all (\<lambda>(k, d). has_status d) ?sigs"
    by (simp add: has_status_def peer_share_def)
  have malicious: "list_ex (\<lambda>(k, d). is_malicious d) ?sigs"
    by (simp add: is_malicious_def peer_share_def)
  from malicious_peer_fails_ceremony [OF auth collected extracted checked status malicious] malicious
  show ?thesis by simp
qed

section \<open>Verification and result shaping\<close>

text \<open>
  C7: after a consistent ceremony (the consistency check flags nobody and no response is
  \<^verbatim>\<open>MALICIOUS\<close>), with the aggregate \<open>agg\<close> a dictionary of the library: when the verifier's
  answer is true, the result is \<open>agg\<close> with \<^verbatim>\<open>message_hash\<close> replaced by its hexadecimal
  text, \<^verbatim>\<open>result\<close> set to \<^verbatim>\<open>SUCCESSFUL\<close>, \<^verbatim>\<open>signature_data\<close> set to the representative sample
  and \<^verbatim>\<open>request_id\<close> set to the id of the call; when it is false, the result is \<open>agg\<close> with
  \<^verbatim>\<open>result\<close> set to \<^verbatim>\<open>FAILED\<close>, everything else of the aggregate retained.
\<close>

theorem verified_aggregate_is_shaped:
  assumes auth: "set sign_party \<subseteq> set (party dkg)"
      and collected:
        "collect_signatures env self dkg nl data sign_party s = (s1, Inr (rid, signatures))"
      and extracted: "extract_all no_extraction (map snd signatures) = Inr ex"
      and consistent:
        "consistency_check env dkg nl ex signatures s1 = (s2, Inr (signatures', ''SUCCESSFUL''))"
      and clean: "list_all (\<lambda>(k, d). has_status d \<and> \<not> is_malicious d) signatures'"
      and nonce: "aggregated_public_nonces ex = code # others"
      and point: "code_to_pub env code = Inr pt"
      and aggregated:
        "aggregate_signatures env (str_message ex) (signs ex) pt (public_key dkg) = Inr (PDict agg)"
      and verdict: "verify_group_signature env (PDict agg) = Inr verified"
      and hash: "py_truthy verified \<longrightarrow> map_of agg ''message_hash'' = Some (PBytes bs)"
  shows "\<exists>shaped. snd (request_signature env self dkg nl data sign_party s) = Inr (PDict shaped)
       \<and> map_of shaped =
           (if py_truthy verified
            then (map_of agg)(''message_hash'' \<mapsto> PStr (bytes_hex bs),
                              ''result'' \<mapsto> PStr ''SUCCESSFUL'',
                              ''signature_data'' \<mapsto> PList (sample_result ex),
                              ''request_id'' \<mapsto> PStr rid)
            else (map_of agg)(''result'' \<mapsto> PStr ''FAILED''))"
proof -
  have run: "request_signature env self dkg nl data sign_party s =
               aggregate_and_verify env dkg rid ex s2"
    by (simp add: request_signature_phases [OF auth collected extracted] conclude_def consistent
          status_check_clean [OF clean])
  show ?thesis
  proof (cases "py_truthy verified")
    case True
    with hash have h: "map_of agg ''message_hash'' = Some (PBytes bs)" by simp
    let ?shaped = "dict_set (dict_set (dict_set (dict_set agg ''message_hash'' (PStr (bytes_hex bs)))
                     ''result'' (PStr ''SUCCESSFUL'')) ''signature_data'' (PList (sample_result ex)))
                     ''request_id'' (PStr rid)"
    have "snd (aggregate_and_verify env dkg rid ex s2) = Inr (PDict ?shaped)"
      using True h
      by (simp add: aggregate_and_verify_def nonce point aggregated verdict shape_success_def Let_def)
    with run True show ?thesis
      by (intro exI [of _ ?shaped]) (simp add: map_of_dict_set)
  next
    case False
    have "snd (aggregate_and_verify env dkg rid ex s2) =
            Inr (PDict (dict_set agg ''result'' (PStr ''FAILED'')))"
      using False
      by (simp add: aggregate_and_verify_def nonce point aggregated verdict Let_def)
    with run False show ?thesis
      by (intro exI [of _ "dict_set agg ''result'' (PStr ''FAILED'')"]) (simp add: map_of_dict_set)
  qed
qed

theorem verified_aggregate_is_shaped_witness:
  "\<exists>shaped. snd (request_signature (example_env net_honest (PBool True)) example_sa example_dkg
                   (PDict []) (PDict []) [''1'', ''2''] idle) = Inr (PDict shaped)
     \<and> map_of shaped ''signature'' = Some (PInt 99)
     \<and> map_of shaped ''message_hash'' = Some (PStr ''ab01'')
     \<and> map_of shaped ''result'' = Some (PStr ''SUCCESSFUL'')
     \<and> map_of shaped ''signature_data'' = Some (PList [peer_share ''msg'' (PInt 7) ''SUCCESSFUL''])
     \<and> map_of shaped ''request_id'' = Some (PStr ''u'')"
proof -
  let ?env = "example_env net_honest (PBool True)"
  let ?share = "peer_share ''msg'' (PInt 7) ''SUCCESSFUL''"
  let ?sigs = "[(''1'', ?share), (''2'', ?share)]"
  let ?agg = "[(''signature'', PInt 99), (''message_hash'', PBytes [0xAB, 0x01])]"
  obtain ex where extracted: "extract_all no_extraction (map snd ?sigs) = Inr ex"
    and nonces: "aggregated_public_nonces ex = [PInt 7, PInt 7]"
    and sample: "sample_result ex = [?share]"
    by (simp add: run_defs example_defs)
  have auth: "set [''1'', ''2''] \<subseteq> set (party example_dkg)"
    by (simp add: example_dkg_def)
  have collected:
    "collect_signatures ?env example_sa example_dkg (PDict []) (PDict []) [''1'', ''2''] idle =
       (collected_state [''1'', ''2''], Inr (''u'', ?sigs))"
    by (simp add: run_defs example_defs net_honest_def)
  have consistent:
    "consistency_check ?env example_dkg (PDict []) ex ?sigs (collected_state [''1'', ''2'']) =
       (collected_state [''1'', ''2''], Inr (?sigs, ''SUCCESSFUL''))"
    by (simp add: consistency_check_def nonces py_set_def py_set_add_def)
  have clean: "list_all (\<lambda>(k, d). has_status d \<and> \<not> is_malicious d) ?sigs"
    by (simp add: has_status_def is_malicious_def peer_share_def)
  have nonce: "aggregated_public_nonces ex = PInt 7 # [PInt 7]" by (simp add: nonces)
  have point: "code_to_pub ?env (PInt 7) = Inr 7" by (simp add: example_env_def)
  have aggregated:
    "aggregate_signatures ?env (str_message ex) (signs ex) 7 (public_key example_dkg) =
       Inr (PDict ?agg)"
    by (simp add: example_env_def)
  have verdict: "verify_group_signature ?env (PDict ?agg) = Inr (PBool True)"
    by (simp add: example_env_def)
  have hash: "py_truthy (PBool True) \<longrightarrow> map_of ?agg ''message_hash'' = Some (PBytes [0xAB, 0x01])"
    by simp
  from verified_aggregate_is_shaped
         [OF auth collected extracted consistent clean nonce point aggregated verdict hash]
  obtain shaped where
    "snd (request_signature ?env example_sa example_dkg (PDict []) (PDict []) [''1'', ''2''] idle)
       = Inr (PDict shaped)"
    and m: "map_of shaped =
           (map_of ?agg)(''message_hash'' \<mapsto> PStr (bytes_hex [0xAB, 0x01]),
                         ''result'' \<mapsto> PStr ''SUCCESSFUL'',
                         ''signature_data'' \<mapsto> PList (sample_result ex),
                         ''request_id'' \<mapsto> PStr ''u'')"
    by auto
  moreover have "bytes_hex [0xAB, 0x01] = ''ab01''"
    by (simp add: bytes_hex_def hex_digit_def)
  ultimately show ?thesis
    by (intro exI [of _ shaped]) (simp add: sample)
qed

section \<open>The canonical digest\<close>

text \<open>
  C8: the digest \<^verbatim>\<open>str_message\<close> is the \<^verbatim>\<open>hash\<close> of the first response, in the order of the
  collected mapping (the order of \<^verbatim>\<open>sign_party\<close> when no id is repeated), that has a non-empty
  hash, and \<^verbatim>\<open>None\<close> when there is none; the representative sample holds exactly that
  response; and every \<^verbatim>\<open>aggregate_nonce\<close> and \<^verbatim>\<open>aggregate_signatures\<close> call of the run is made
  with that digest.
\<close>

theorem canonical_digest_is_first_hash:
  assumes auth: "set sign_party \<subseteq> set (party dkg)"
      and collected:
        "collect_signatures env self dkg nl data sign_party s = (s1, Inr (rid, signatures))"
      and extracted: "extract_all no_extraction (map snd signatures) = Inr ex"
      and run: "request_signature env self dkg nl data sign_party s = (s', r)"
  shows "str_message ex =
           (case find (\<lambda>d. py_truthy (reported_hash d)) (map snd signatures) of
              None \<Rightarrow> PNone | Some d \<Rightarrow> reported_hash d)
       \<and> sample_result ex =
           (case find (\<lambda>d. py_truthy (reported_hash d)) (map snd signatures) of
              None \<Rightarrow> [] | Some d \<Rightarrow> [d])
       \<and> (\<exists>evs. trace s' = trace s @ evs
              \<and> (\<forall>m a b. AggregateNonce m a b \<in> set evs \<longrightarrow> m = str_message ex)
              \<and> (\<forall>m sg pt pk. AggregateSignatures m sg pt pk \<in> set evs \<longrightarrow> m = str_message ex))
       \<and> (distinct sign_party \<longrightarrow> map fst signatures = sign_party)"
proof -
  from extract_all_message [OF extracted]
  have digest: "str_message ex =
           (case find (\<lambda>d. py_truthy (reported_hash d)) (map snd signatures) of
              None \<Rightarrow> PNone | Some d \<Rightarrow> reported_hash d)"
    and sample: "sample_result ex =
           (case find (\<lambda>d. py_truthy (reported_hash d)) (map snd signatures) of
              None \<Rightarrow> [] | Some d \<Rightarrow> [d])"
    by (simp_all add: no_extraction_def)
  from collect_signatures_events [OF collected] obtain evs1 where
    e1: "trace s1 = trace s @ Uuid4 (uuid4 env (uuids s)) # evs1" "list_all is_transport evs1"
    by blast
  from run have c: "conclude env dkg nl rid signatures ex s1 = (s', r)"
    by (simp add: request_signature_phases [OF auth collected extracted])
  from conclude_events [OF c] obtain evs2 where
    e2: "trace s' = trace s1 @ evs2"
        "\<forall>m a b. AggregateNonce m a b \<in> set evs2 \<longrightarrow> m = str_message ex"
        "\<forall>m sg pt pk. AggregateSignatures m sg pt pk \<in> set evs2 \<longrightarrow> m = str_message ex"
    by blast
  have t: "\<forall>e\<in>set evs1. is_transport e" using e1(2) by (simp add: list_all_iff)
  have events: "\<exists>evs. trace s' = trace s @ evs
              \<and> (\<forall>m a b. AggregateNonce m a b \<in> set evs \<longrightarrow> m = str_message ex)
              \<and> (\<forall>m sg pt pk. AggregateSignatures m sg pt pk \<in> set evs \<longrightarrow> m = str_message ex)"
    using e1(1) e2 t
    by (intro exI [of _ "Uuid4 (uuid4 env (uuids s)) # evs1 @ evs2"]) fastforce
  from collect_signatures_Inr [OF collected] obtain rs where
    "length rs = length sign_party" "signatures = dict_zip sign_party rs" by blast
  then have "distinct sign_party \<longrightarrow> map fst signatures = sign_party"
    by (simp add: dict_zip_distinct)
  with digest sample events show ?thesis by blast
qed

theorem canonical_digest_is_first_hash_witness:
  "\<exists>s' r ex evs.
     request_signature (example_env net_hashes (PBool True)) example_sa example_dkg
       (PDict []) (PDict []) [''1'', ''2'', ''3''] idle = (s', r)
     \<and> extract_all no_extraction
         [peer_share [] (PInt 7) ''SUCCESSFUL'', peer_share ''m2'' (PInt 7) ''SUCCESSFUL'',
          peer_share ''m3'' (PInt 7) ''SUCCESSFUL''] = Inr ex
     \<and> str_message ex = PStr ''m2''
     \<and> sample_result ex = [peer_share ''m2'' (PInt 7) ''SUCCESSFUL'']
     \<and> trace s' = trace idle @ evs
     \<and> (\<forall>m sg pt pk. AggregateSignatures m sg pt pk \<in> set evs \<longrightarrow> m = PStr ''m2'')"
proof -
  let ?env = "example_env net_hashes (PBool True)"
  let ?ids = "[''1'', ''2'', ''3'']"
  let ?sigs = "[(''1'', peer_share [] (PInt 7) ''SUCCESSFUL''),
                (''2'', peer_share ''m2'' (PInt 7) ''SUCCESSFUL''),
                (''3'', peer_share ''m3'' (PInt 7) ''SUCCESSFUL'')]"
  obtain ex where extracted: "extract_all no_extraction (map snd ?sigs) = Inr ex"
    by (simp add: run_defs example_defs)
  obtain s' r where run:
    "request_signature ?env example_sa example_dkg (PDict []) (PDict []) ?ids idle = (s', r)"
    by (cases "request_signature ?env example_sa example_dkg (PDict []) (PDict []) ?ids idle")
  have auth: "set ?ids \<subseteq> set (party example_dkg)"
    by (simp add: example_dkg_def)
  have collected:
    "collect_signatures ?env example_sa example_dkg (PDict []) (PDict []) ?ids idle =
       (collected_state ?ids, Inr (''u'', ?sigs))"
    by (simp add: run_defs example_defs net_hashes_def)
  from canonical_digest_is_first_hash [OF auth collected extracted run]
  obtain evs where "str_message ex = PStr ''m2''"
    "sample_result ex = [peer_share ''m2'' (PInt 7) ''SUCCESSFUL'']"
    "trace s' = trace idle @ evs"
    "\<forall>m sg pt pk. AggregateSignatures m sg pt pk \<in> set evs \<longrightarrow> m = str_message ex"
    by (auto simp: reported_hash_def peer_share_def)
  with run extracted show ?thesis
    by (intro exI [of _ s'] exI [of _ r] exI [of _ ex] exI [of _ evs]) simp
qed

section \<open>The request id\<close>

text \<open>
  C9: each call that passes the guard draws exactly one identifier from \<^verbatim>\<open>uuid.uuid4()\<close>,
  before anything else; every request of the call carries the payload
  \<^verbatim>\<open>{request_id, dkg_public_key, nonces_list, data}\<close> whose \<^verbatim>\<open>request_id\<close> is that identifier,
  and when the directory knows every signer each signer is sent it; a result whose
  \<^verbatim>\<open>result\<close> is \<^verbatim>\<open>SUCCESSFUL\<close> carries that identifier as \<^verbatim>\<open>request_id\<close>; and, \<^verbatim>\<open>uuid4\<close>
  never returning the same identifier twice, two calls with the same inputs have two
  distinct identifiers.
\<close>

theorem request_id_is_fresh_and_shared:
  assumes auth: "set sign_party \<subseteq> set (party dkg)"
      and unique: "inj (uuid4 env)"
      and first: "request_signature env self dkg nl data sign_party s = (s', r)"
      and second: "request_signature env self dkg nl data sign_party s' = (s'', r')"
  shows "\<exists>rid rid' evs evs'.
           trace s' = trace s @ Uuid4 rid # evs \<and> trace s'' = trace s' @ Uuid4 rid' # evs'
         \<and> rid \<noteq> rid'
         \<and> (\<forall>x. Uuid4 x \<notin> set evs \<and> Uuid4 x \<notin> set evs')
         \<and> (\<forall>u d t. Post u d t \<in> set evs \<longrightarrow>
                d = PDict [(''request_id'', PStr rid), (''dkg_public_key'', public_key dkg),
                           (''nonces_list'', nl), (''data'', data)])
         \<and> (\<forall>u d t. Post u d t \<in> set evs' \<longrightarrow>
                d = PDict [(''request_id'', PStr rid'), (''dkg_public_key'', public_key dkg),
                           (''nonces_list'', nl), (''data'', data)])
         \<and> ((\<forall>i\<in>set sign_party. \<exists>n. nodes_info self i = Inr n) \<longrightarrow>
              (\<forall>i\<in>set sign_party.
                 Post (node_url (projr (nodes_info self i)) ''/v1/sign'')
                      (PDict [(''request_id'', PStr rid), (''dkg_public_key'', public_key dkg),
                              (''nonces_list'', nl), (''data'', data)])
                      (default_timeout self) \<in> set evs
               \<and> Post (node_url (projr (nodes_info self i)) ''/v1/sign'')
                      (PDict [(''request_id'', PStr rid'), (''dkg_public_key'', public_key dkg),
                              (''nonces_list'', nl), (''data'', data)])
                      (default_timeout self) \<in> set evs'))
         \<and> (\<forall>res. r = Inr res \<and> py_getitem res ''result'' = Inr (PStr ''SUCCESSFUL'') \<longrightarrow>
                py_getitem res ''request_id'' = Inr (PStr rid))
         \<and> (\<forall>res. r' = Inr res \<and> py_getitem res ''result'' = Inr (PStr ''SUCCESSFUL'') \<longrightarrow>
                py_getitem res ''request_id'' = Inr (PStr rid'))"
proof -
  from request_signature_request_id [OF auth first] obtain evs where
    a: "trace s' = trace s @ Uuid4 (uuid4 env (uuids s)) # evs" "uuids s' = Suc (uuids s)"
       "\<forall>x. Uuid4 x \<notin> set evs"
       "\<forall>u d t. Post u d t \<in> set evs \<longrightarrow> d = sign_payload (uuid4 env (uuids s)) dkg nl data"
       "(\<forall>i\<in>set sign_party. \<exists>n. nodes_info self i = Inr n) \<longrightarrow>
          (\<forall>i\<in>set sign_party.
             Post (node_url (projr (nodes_info self i)) ''/v1/sign'')
                  (sign_payload (uuid4 env (uuids s)) dkg nl data) (default_timeout self) \<in> set evs)"
       "\<forall>res. r = Inr res \<and> py_getitem res ''result'' = Inr (PStr ''SUCCESSFUL'') \<longrightarrow>
                py_getitem res ''request_id'' = Inr (PStr (uuid4 env (uuids s)))"
    by blast
  from request_signature_request_id [OF auth second] obtain evs' where
    b: "trace s'' = trace s' @ Uuid4 (uuid4 env (uuids s')) # evs'"
       "\<forall>x. Uuid4 x \<notin> set evs'"
       "\<forall>u d t. Post u d t \<in> set evs' \<longrightarrow> d = sign_payload (uuid4 env (uuids s')) dkg nl data"
       "(\<forall>i\<in>set sign_party. \<exists>n. nodes_info self i = Inr n) \<longrightarrow>
          (\<forall>i\<in>set sign_party.
             Post (node_url (projr (nodes_info self i)) ''/v1/sign'')
                  (sign_payload (uuid4 env (uuids s')) dkg nl data) (default_timeout self) \<in> set evs')"
       "\<forall>res. r' = Inr res \<and> py_getitem res ''result'' = Inr (PStr ''SUCCESSFUL'') \<longrightarrow>
                py_getitem res ''request_id'' = Inr (PStr (uuid4 env (uuids s')))"
    by blast
  have "uuid4 env (uuids s) \<noteq> uuid4 env (uuids s')"
    using unique a(2) by (auto dest: injD)
  with a b show ?thesis
    by (intro exI [of _ "uuid4 env (uuids s)"] exI [of _ "uuid4 env (uuids s')"]
              exI [of _ evs] exI [of _ evs']) (simp add: sign_payload_def)
qed

theorem request_id_is_fresh_and_shared_witness:
  "\<exists>rid rid' res res'.
     rid \<noteq> rid'
     \<and> snd (request_signature (example_env net_honest (PBool True)) example_sa example_dkg
              (PDict []) (PDict []) [''1''] idle) = Inr res
     \<and> snd (request_signature (example_env net_honest (PBool True)) example_sa example_dkg
              (PDict []) (PDict []) [''1'']
              (fst (request_signature (example_env net_honest (PBool True)) example_sa
                      example_dkg (PDict []) (PDict []) [''1''] idle))) = Inr res'
     \<and> py_getitem res ''request_id'' = Inr (PStr rid)
     \<and> py_getitem res' ''request_id'' = Inr (PStr rid')
     \<and> Post ''http://node1:5000/v1/sign''
           (PDict [(''request_id'', PStr rid), (''dkg_public_key'', PInt 77),
                   (''nonces_list'', PDict []), (''data'', PDict [])]) 200
         \<in> set (trace (fst (request_signature (example_env net_honest (PBool True)) example_sa
                             example_dkg (PDict []) (PDict []) [''1''] idle)))"
proof -
  let ?env = "example_env net_honest (PBool True)"
  let ?run1 = "request_signature ?env example_sa example_dkg (PDict []) (PDict []) [''1''] idle"
  let ?run2 = "request_signature ?env example_sa example_dkg (PDict []) (PDict []) [''1'']
                 (fst ?run1)"
  have auth: "set [''1''] \<subseteq> set (party example_dkg)"
    by (simp add: example_dkg_def)
  have unique: "inj (uuid4 ?env)"
    by (simp add: example_env_def inj_on_def)
  have first: "?run1 = (fst ?run1, snd ?run1)" by simp
  have second: "?run2 = (fst ?run2, snd ?run2)" by simp
  have known: "\<forall>i\<in>set [''1'']. \<exists>n. nodes_info example_sa i = Inr n"
    by (simp add: example_sa_def)
  have url: "node_url (projr (nodes_info example_sa ''1'')) ''/v1/sign'' =
               ''http://node1:5000/v1/sign''"
    by (simp add: example_sa_def node_url_def)
  obtain res where ok1: "snd ?run1 = Inr res" "py_getitem res ''result'' = Inr (PStr ''SUCCESSFUL'')"
    by (simp add: run_defs example_defs net_honest_def)
  obtain res' where ok2: "snd ?run2 = Inr res'" "py_getitem res' ''result'' = Inr (PStr ''SUCCESSFUL'')"
    by (simp add: run_defs example_defs net_honest_def)
  from request_id_is_fresh_and_shared [OF auth unique first second]
  obtain rid rid' evs where "rid \<noteq> rid'"
    and sent: "trace (fst ?run1) = trace idle @ Uuid4 rid # evs"
      "(\<forall>i\<in>set [''1'']. \<exists>n. nodes_info example_sa i = Inr n) \<longrightarrow>
         (\<forall>i\<in>set [''1''].
            Post (node_url (projr (nodes_info example_sa i)) ''/v1/sign'')
                 (PDict [(''request_id'', PStr rid), (''dkg_public_key'', public_key example_dkg),
                         (''nonces_list'', PDict []), (''data'', PDict [])])
                 (default_timeout example_sa) \<in> set evs)"
    and "\<forall>res. snd ?run1 = Inr res \<and> py_getitem res ''result'' = Inr (PStr ''SUCCESSFUL'') \<longrightarrow>
                py_getitem res ''request_id'' = Inr (PStr rid)"
    and "\<forall>res. snd ?run2 = Inr res \<and> py_getitem res ''result'' = Inr (PStr ''SUCCESSFUL'') \<longrightarrow>
                py_getitem res ''request_id'' = Inr (PStr rid')"
    by blast
  moreover from sent(2) known url
  have "Post ''http://node1:5000/v1/sign''
          (PDict [(''request_id'', PStr rid), (''dkg_public_key'', PInt 77),
                  (''nonces_list'', PDict []), (''data'', PDict [])]) 200 \<in> set evs"
    by (simp add: example_dkg_def example_sa_def)
  ultimately show ?thesis using ok1 ok2
    by (intro exI [of _ rid] exI [of _ rid'] exI [of _ res] exI [of _ res']) simp
qed

section \<open>A lone forged nonce\<close>

text \<open>
  C5, as the code has it: when every collected response carries a status and a non-empty,
  hashable \<^verbatim>\<open>aggregated_public_nonce\<close>, at least two signers have answered, the library's
  recomputation returns the code \<open>code\<close>, the value of exactly one signer differs from
  \<open>code\<close> and the values of all others equal it, then the nonce is recomputed, exactly that
  signer's response gets the status \<^verbatim>\<open>MALICIOUS\<close>, every other response is left as it was,
  and the call returns \<^verbatim>\<open>{result: FAILED, signatures: <all responses>}\<close>.
\<close>

theorem lone_forger_is_flagged:
  assumes auth: "set sign_party \<subseteq> set (party dkg)"
      and collected:
        "collect_signatures env self dkg nl data sign_party s = (s1, Inr (rid, signatures))"
      and extracted: "extract_all no_extraction (map snd signatures) = Inr ex"
      and shares:
        "list_all (\<lambda>(k, d). has_status d \<and>
                     (\<exists>v. reported_nonce d = Inr v \<and> py_truthy v \<and> py_hashable v)) signatures"
      and recomputed: "aggregate_nonce env (str_message ex) nl (public_key dkg) = Inr pt"
      and coded: "pub_to_code env pt = Inr code"
      and forger: "j < length signatures" "disagrees code (snd (signatures ! j))"
      and others: "\<forall>i<length signatures. i \<noteq> j \<longrightarrow> \<not> disagrees code (snd (signatures ! i))"
      and several: "2 \<le> length signatures"
  shows "request_signature env self dkg nl data sign_party s =
           (s1\<lparr>trace := trace s1 @
                  [AggregateNonce (str_message ex) nl (public_key dkg), PubToCode pt]\<rparr>,
            Inr (PDict [(''result'', PStr ''FAILED''),
                        (''signatures'',
                         PDict (signatures[j := (fst (signatures ! j),
                                                 flagged (snd (signatures ! j)))]))]))"
proof -
  define N where "N = (\<lambda>d. projr (reported_nonce d))"
  have each: "has_status (snd kd) \<and> reported_nonce (snd kd) = Inr (N (snd kd))
      \<and> py_truthy (N (snd kd)) \<and> py_hashable (N (snd kd))" if "kd \<in> set signatures" for kd
    using shares that by (cases kd) (auto simp: list_all_iff N_def)
  have share: "has_status (snd (signatures ! i))
      \<and> reported_nonce (snd (signatures ! i)) = Inr (N (snd (signatures ! i)))
      \<and> py_truthy (N (snd (signatures ! i))) \<and> py_hashable (N (snd (signatures ! i)))"
    if "i < length signatures" for i
    using each [of "signatures ! i"] that by simp
  \<comment> \<open>the collected nonces are the reported ones, all of them\<close>
  have nonces: "aggregated_public_nonces ex = map (\<lambda>kd. N (snd kd)) signatures"
  proof -
    have "projr (collected_nonce (snd kd)) = N (snd kd)" if "kd \<in> set signatures" for kd
      using each [OF that] reported_collected [of "snd kd" "N (snd kd)"] by simp
    then have m: "map ((\<lambda>d. projr (collected_nonce d)) \<circ> snd) signatures =
                  map (\<lambda>kd. N (snd kd)) signatures"
      by (intro map_cong) auto
    have f: "filter py_truthy (map (\<lambda>kd. N (snd kd)) signatures) = map (\<lambda>kd. N (snd kd)) signatures"
      using each by (auto intro!: filter_True)
    from extract_all_nonces [OF extracted] show ?thesis
      by (simp add: no_extraction_def m f)
  qed
  have hashable: "list_all py_hashable (aggregated_public_nonces ex)"
    using each by (auto simp: nonces list_all_iff)
  \<comment> \<open>they are not one value\<close>
  from several forger(1) obtain i where i: "i < length signatures" "i \<noteq> j"
    by (cases "j = 0") (auto intro: that [of 0] that [of 1])
  have several_values: "length (foldl py_set_add [] (aggregated_public_nonces ex)) \<noteq> 1"
  proof
    assume "length (foldl py_set_add [] (aggregated_public_nonces ex)) = 1"
    then obtain e where "foldl py_set_add [] (aggregated_public_nonces ex) = [e]"
      by (cases "foldl py_set_add [] (aggregated_public_nonces ex)") auto
    with hashable have one: "py_set (aggregated_public_nonces ex) = Inr [e]"
      by (simp add: py_set_def)
    have "N (snd (signatures ! j)) \<in> set (aggregated_public_nonces ex)"
         "N (snd (signatures ! i)) \<in> set (aggregated_public_nonces ex)"
      using forger(1) i(1) by (auto simp: nonces)
    from py_set_single [OF one this]
    have "py_eq (N (snd (signatures ! j))) (N (snd (signatures ! i)))" .
    moreover from others i share [OF i(1)]
    have "py_eq (N (snd (signatures ! i))) code" by (auto simp: disagrees_def)
    ultimately have "py_eq (N (snd (signatures ! j))) code"
      using share [OF i(1)] by (blast intro: py_eq_trans)
    with forger(2) share [OF forger(1)] show False by (simp add: disagrees_def)
  qed
  \<comment> \<open>so the nonce is recomputed and the loop of line 104 runs\<close>
  let ?s2 = "s1\<lparr>trace := trace s1 @
                  [AggregateNonce (str_message ex) nl (public_key dkg), PubToCode pt]\<rparr>"
  let ?marked = "map (\<lambda>(k, d). (k, if disagrees code d then flagged d else d)) signatures"
  have reported: "\<forall>(k, d)\<in>set signatures. \<exists>v. reported_nonce d = Inr v"
    using each by fastforce
  have some: "list_ex (\<lambda>(k, d). disagrees code d) signatures"
    using forger by (auto simp: list_ex_iff intro!: bexI [of _ "signatures ! j"] split: prod.splits)
  have checked: "consistency_check env dkg nl ex signatures s1 = (?s2, Inr (?marked, ''FAILED''))"
    using several_values hashable some
    by (simp add: consistency_check_def py_set_def recomputed coded emit_def Let_def
          mark_malicious_shares [OF reported])
  have marked: "?marked = signatures[j := (fst (signatures ! j), flagged (snd (signatures ! j)))]"
  proof (rule nth_equalityI)
    show "length ?marked =
            length (signatures[j := (fst (signatures ! j), flagged (snd (signatures ! j)))])"
      by simp
  next
    fix n assume "n < length ?marked"
    then have n: "n < length signatures" by simp
    show "?marked ! n = signatures[j := (fst (signatures ! j), flagged (snd (signatures ! j)))] ! n"
    proof (cases "n = j")
      case True
      with forger show ?thesis by (simp add: case_prod_beta)
    next
      case False
      with others n show ?thesis by (simp add: case_prod_beta)
    qed
  qed
  have status: "list_all (\<lambda>(k, d). has_status d) ?marked"
    using each by (auto simp: list_all_iff flagged_has_status)
  have "is_malicious (flagged (snd (signatures ! j)))"
    using share [OF forger(1)] by (blast intro: flagged_is_malicious)
  then have malicious: "list_ex (\<lambda>(k, d). is_malicious d) ?marked"
    using forger(1) unfolding marked
    by (auto simp: list_ex_iff intro!: bexI [of _ "(fst (signatures ! j), flagged (snd (signatures ! j)))"]
             simp: set_update_memI)
  show ?thesis
    by (simp add: request_signature_phases [OF auth collected extracted] conclude_def checked
          status_check_malicious [OF status malicious] marked [symmetric])
qed

theorem lone_forger_is_flagged_witness:
  "disagrees (PInt 7) (peer_share ''msg'' (PInt 8) ''SUCCESSFUL'')
   \<and> \<not> disagrees (PInt 7) (peer_share ''msg'' (PInt 7) ''SUCCESSFUL'')
   \<and> snd (request_signature (example_env net_forged (PBool True)) example_sa example_dkg
            (PDict []) (PDict []) [''1'', ''2'', ''3''] idle) =
       Inr (PDict [(''result'', PStr ''FAILED''),
                   (''signatures'',
                    PDict [(''1'', peer_share ''msg'' (PInt 7) ''SUCCESSFUL''),
                           (''2'', peer_share ''msg'' (PInt 8) ''MALICIOUS''),
                           (''3'', peer_share ''msg'' (PInt 7) ''SUCCESSFUL'')])])"
proof -
  let ?env = "example_env net_forged (PBool True)"
  let ?ids = "[''1'', ''2'', ''3'']"
  let ?sigs = "[(''1'', peer_share ''msg'' (PInt 7) ''SUCCESSFUL''),
                (''2'', peer_share ''msg'' (PInt 8) ''SUCCESSFUL''),
                (''3'', peer_share ''msg'' (PInt 7) ''SUCCESSFUL'')]"
  obtain ex where extracted: "extract_all no_extraction (map snd ?sigs) = Inr ex"
    by (simp add: run_defs example_defs)
  have auth: "set ?ids \<subseteq> set (party example_dkg)"
    by (simp add: example_dkg_def)
  have collected:
    "collect_signatures ?env example_sa example_dkg (PDict []) (PDict []) ?ids idle =
       (collected_state ?ids, Inr (''u'', ?sigs))"
    by (simp add: run_defs example_defs net_forged_def)
  have shares:
    "list_all (\<lambda>(k, d). has_status d \<and>
                 (\<exists>v. reported_nonce d = Inr v \<and> py_truthy v \<and> py_hashable v)) ?sigs"
    by (simp add: has_status_def reported_nonce_def peer_share_def)
  have recomputed:
    "aggregate_nonce ?env (str_message ex) (PDict []) (public_key example_dkg) = Inr 7"
    by (simp add: example_env_def)
  have coded: "pub_to_code ?env 7 = Inr (PInt 7)"
    by (simp add: example_env_def)
  have forger: "1 < length ?sigs" "disagrees (PInt 7) (snd (?sigs ! 1))"
    by (simp_all add: disagrees_def reported_nonce_def peer_share_def)
  have others: "\<forall>i<length ?sigs. i \<noteq> 1 \<longrightarrow> \<not> disagrees (PInt 7) (snd (?sigs ! i))"
    by (simp add: disagrees_def reported_nonce_def peer_share_def less_Suc_eq nth_Cons')
  have several: "2 \<le> length ?sigs" by simp
  have d: "disagrees (PInt 7) (peer_share ''msg'' (PInt 8) ''SUCCESSFUL'')"
          "\<not> disagrees (PInt 7) (peer_share ''msg'' (PInt 7) ''SUCCESSFUL'')"
    by (simp_all add: disagrees_def reported_nonce_def peer_share_def)
  from lone_forger_is_flagged
         [OF auth collected extracted shares recomputed coded forger others several] d
  show ?thesis
    by (simp add: flagged_def peer_share_def)
qed

text \<open>
  C5 as stated fails in two ways, both without any recomputation. A signer whose nonce field
  is empty differs from the recomputed code 7, yet its value is not collected: the one other
  value is unique, nobody is flagged, and with a true verdict the result is \<^verbatim>\<open>SUCCESSFUL\<close>. A
  lone signer reporting the code 8 is the only value collected: nobody is flagged, and the
  result is the aggregate, failed by the verifier alone.
\<close>

theorem unflagged_forger_counterexample:
  "disagrees (PInt 7) (peer_share ''msg'' (PStr []) ''SUCCESSFUL'')
   \<and> \<not> disagrees (PInt 7) (peer_share ''msg'' (PInt 7) ''SUCCESSFUL'')
   \<and> snd (request_signature (example_env net_blank (PBool True)) example_sa example_dkg
            (PDict []) (PDict []) [''1'', ''2''] idle) =
       Inr (PDict [(''signature'', PInt 99), (''message_hash'', PStr ''ab01''),
                   (''result'', PStr ''SUCCESSFUL''),
                   (''signature_data'', PList [peer_share ''msg'' (PInt 7) ''SUCCESSFUL'']),
                   (''request_id'', PStr ''u'')])
   \<and> disagrees (PInt 7) (peer_share ''msg'' (PInt 8) ''SUCCESSFUL'')
   \<and> snd (request_signature (example_env net_all_forged (PBool False)) example_sa example_dkg
            (PDict []) (PDict []) [''1''] idle) =
       Inr (PDict [(''signature'', PInt 99), (''message_hash'', PBytes [0xAB, 0x01]),
                   (''result'', PStr ''FAILED'')])"
  by (simp add: run_defs example_defs net_blank_def net_all_forged_def)

end
